theory Spec2Isabelle
  imports Main "HOL-Library.Char_ord" "HOL-Library.List_Lexorder"
begin

section \<open>Strings of the export script\<close>

text \<open>
  The script \<^verbatim>\<open>crop_data_download.py\<close> works on Python \<^verbatim>\<open>str\<close> values.  A
  \<^typ>\<open>string\<close> stands for a \<^verbatim>\<open>str\<close> whose code points lie below 256: every \<^typ>\<open>char\<close>
  is one code point, so \<^const>\<open>length\<close> counts what Python's \<^verbatim>\<open>len\<close> counts.  On that range
  the case mapping, the white space class and the digit class of Python are the ones below.
\<close>

definition ord :: "char \<Rightarrow> nat" where
  "ord c = of_char c"

definition is_az :: "char \<Rightarrow> bool" where
  \<comment> \<open>the class \<^verbatim>\<open>[a-z]\<close>\<close>
  "is_az c = (97 \<le> ord c \<and> ord c \<le> 122)"

definition is_digit :: "char \<Rightarrow> bool" where
  \<comment> \<open>the class \<^verbatim>\<open>[0-9]\<close>, which is \<^verbatim>\<open>\d\<close> below code point 256\<close>
  "is_digit c = (48 \<le> ord c \<and> ord c \<le> 57)"

definition is_alnum :: "char \<Rightarrow> bool" where
  \<comment> \<open>the class \<^verbatim>\<open>[a-z0-9]\<close>\<close>
  "is_alnum c = (is_az c \<or> is_digit c)"

definition is_space :: "char \<Rightarrow> bool" where
  \<comment> \<open>\<^verbatim>\<open>str.isspace\<close>: TAB, LF, VT, FF, CR, FS, GS, RS, US, SPACE, NEL, NBSP\<close>
  "is_space c = ((9 \<le> ord c \<and> ord c \<le> 13) \<or> (28 \<le> ord c \<and> ord c \<le> 32)
                  \<or> ord c = 133 \<or> ord c = 160)"

definition is_upper :: "char \<Rightarrow> bool" where
  \<comment> \<open>the code points that \<^verbatim>\<open>str.lower\<close> changes: A-Z and the Latin-1 capitals\<close>
  "is_upper c = ((65 \<le> ord c \<and> ord c \<le> 90) \<or> (192 \<le> ord c \<and> ord c \<le> 222 \<and> ord c \<noteq> 215))"

definition lower_char :: "char \<Rightarrow> char" where
  "lower_char c = (if is_upper c then char_of (ord c + 32) else c)"

definition lower :: "string \<Rightarrow> string" where
  \<comment> \<open>\<^verbatim>\<open>s.lower()\<close>\<close>
  "lower s = map lower_char s"

definition lstrip_with :: "(char \<Rightarrow> bool) \<Rightarrow> string \<Rightarrow> string" where
  "lstrip_with P s = dropWhile P s"

definition rstrip_with :: "(char \<Rightarrow> bool) \<Rightarrow> string \<Rightarrow> string" where
  "rstrip_with P s = rev (dropWhile P (rev s))"

definition strip_with :: "(char \<Rightarrow> bool) \<Rightarrow> string \<Rightarrow> string" where
  "strip_with P s = rstrip_with P (lstrip_with P s)"

definition lstrip :: "string \<Rightarrow> string" where
  \<comment> \<open>\<^verbatim>\<open>s.lstrip()\<close>\<close>
  "lstrip s = lstrip_with is_space s"

definition strip :: "string \<Rightarrow> string" where
  \<comment> \<open>\<^verbatim>\<open>s.strip()\<close>\<close>
  "strip s = strip_with is_space s"

definition strip_chars :: "string \<Rightarrow> string \<Rightarrow> string" where
  \<comment> \<open>\<^verbatim>\<open>s.strip(chars)\<close>\<close>
  "strip_chars chars s = strip_with (\<lambda>c. c \<in> set chars) s"

definition replace_char :: "char \<Rightarrow> string \<Rightarrow> string \<Rightarrow> string" where
  \<comment> \<open>\<^verbatim>\<open>s.replace(old, new)\<close> for a one-character \<^verbatim>\<open>old\<close>\<close>
  "replace_char old new s = concat (map (\<lambda>c. if c = old then new else [c]) s)"

definition startswith :: "string \<Rightarrow> string \<Rightarrow> bool" where
  \<comment> \<open>\<^verbatim>\<open>s.startswith(p)\<close>\<close>
  "startswith s p = (take (length p) s = p)"

fun contains :: "string \<Rightarrow> string \<Rightarrow> bool" where
  \<comment> \<open>\<^verbatim>\<open>sub in s\<close>\<close>
  "contains [] sub = (sub = [])"
| "contains (c # cs) sub = (startswith (c # cs) sub \<or> contains cs sub)"

function re_sub_runs :: "(char \<Rightarrow> bool) \<Rightarrow> string \<Rightarrow> string \<Rightarrow> string" where
  \<comment> \<open>\<^verbatim>\<open>re.sub(r"[class]+", repl, s)\<close>: scanning from the left, every maximal run of
      characters of the class is replaced by \<^verbatim>\<open>repl\<close>\<close>
  "re_sub_runs P repl [] = []"
| "re_sub_runs P repl (c # cs) =
     (if P c then repl @ re_sub_runs P repl (dropWhile P cs)
      else c # re_sub_runs P repl cs)"
  by pat_completeness auto
termination
  by (relation "measure (\<lambda>(P, repl, s). length s)")
     (auto simp: length_dropWhile_le le_imp_less_Suc)

subsection \<open>Identifier normaliser\<close>

definition safe_filename :: "string \<Rightarrow> string" where
  "safe_filename s0 =
     (let s1 = lower (strip s0);
          s2 = replace_char (CHR ''&'') ''and'' s1;
          s3 = re_sub_runs (\<lambda>c. \<not> is_alnum c) ''_'' s2;
          s4 = strip_chars ''_'' (re_sub_runs (\<lambda>c. c = CHR ''_'') ''_'' s3)
      in if s4 = [] then ''unknown_county'' else s4)"

definition region_literal :: string where
  \<comment> \<open>the literal part of the pattern \<^verbatim>\<open>administrativeRegion\.USA\.(\d+)$\<close>\<close>
  "region_literal = ''administrativeRegion.USA.''"

definition at_dollar :: "string \<Rightarrow> bool" where
  \<comment> \<open>\<^verbatim>\<open>$\<close> without \<^verbatim>\<open>re.MULTILINE\<close>: at the end of the string, or just before a
      newline that is the last character\<close>
  "at_dollar rest = (rest = [] \<or> rest = [CHR 0x0A])"

definition match_here :: "string \<Rightarrow> string option" where
  \<comment> \<open>the pattern tried at the start of \<open>t\<close>; \<^verbatim>\<open>\d+\<close> is greedy, and giving a digit
      back never lets \<^verbatim>\<open>$\<close> succeed, so the group is the whole digit run\<close>
  "match_here t =
     (if startswith t region_literal then
        (let r = drop (length region_literal) t;
             d = takeWhile is_digit r
         in if d \<noteq> [] \<and> at_dollar (dropWhile is_digit r) then Some d else None)
      else None)"

fun re_search :: "string \<Rightarrow> string option" where
  \<comment> \<open>\<^verbatim>\<open>re.search\<close>: the leftmost position at which the pattern matches; the value is
      \<^verbatim>\<open>m.group(1)\<close>\<close>
  "re_search [] = match_here []"
| "re_search (c # cs) =
     (case match_here (c # cs) of Some d \<Rightarrow> Some d | None \<Rightarrow> re_search cs)"

definition extract_fips_from_iri :: "string \<Rightarrow> string" where
  "extract_fips_from_iri county_iri =
     (case re_search county_iri of Some d \<Rightarrow> d | None \<Rightarrow> ''unknown'')"

section \<open>The world the script runs in\<close>

text \<open>
  Everything outside the script is explicit.  An \<open>env\<close> holds what the run cannot choose:
  the home directory, the command line, the replies of the remote endpoint (the \<open>n\<close>-th call
  of \<^verbatim>\<open>requests.post\<close> may answer anything, or raise) and the file system's refusals.  A
  \<open>world\<close> holds what the run changes: directories, file contents, and the trace of the
  effects in the order they happen.  Exceptions are values of \<open>exn\<close>: only classes below
  \<^verbatim>\<open>Exception\<close> occur.
\<close>

type_synonym path = "string list"

datatype exn =
    HTTPError nat string  \<comment> \<open>\<^verbatim>\<open>requests.HTTPError\<close>: status code and text of its response\<close>
  | OtherError string     \<comment> \<open>any other \<^verbatim>\<open>Exception\<close> of the HTTP call or of parsing its body\<close>
  | KeyError string
  | OSError string

type_synonym rdf_term = "string \<rightharpoonup> string"
type_synonym binding = "string \<rightharpoonup> rdf_term"
type_synonym select_json = "string \<rightharpoonup> (string \<rightharpoonup> binding list)"

record response =
  status_code :: nat
  resp_text :: string
  resp_json :: "exn + select_json"  \<comment> \<open>what \<^verbatim>\<open>resp.json()\<close> returns or raises\<close>

datatype outcome =
    Finished        \<comment> \<open>the script ran to its end: exit status 0\<close>
  | SysExit nat     \<comment> \<open>\<^verbatim>\<open>sys.exit(n)\<close>\<close>
  | Uncaught exn    \<comment> \<open>an exception reached the top level: traceback, exit status 1\<close>

datatype msg =
    OutputDirectory path
  | FetchingCounties
  | FoundCounties nat
  | Exporting nat nat string string string
  | ErrorHTTP nat
  | ErrorBody string
  | ErrorOther exn
  | ErrorLooksLikeHtml
  | SavedKB path
  | Done
  | NoCountyFound string
  | Saved path

datatype event =
    MkDir path            \<comment> \<open>\<^verbatim>\<open>mkdir(parents=True, exist_ok=True)\<close> is called\<close>
  | Post string string    \<comment> \<open>\<^verbatim>\<open>requests.post\<close> is called: Accept header and query\<close>
  | Wrote path string     \<comment> \<open>\<^verbatim>\<open>write_text\<close> has written the file\<close>
  | Slept nat             \<comment> \<open>\<^verbatim>\<open>time.sleep\<close>, in milliseconds\<close>
  | Printed msg

record env =
  home :: path
  argv :: "string list"
  http_post :: "nat \<Rightarrow> string \<Rightarrow> string \<Rightarrow> exn + response"
  mkdir_error :: "exn option"
  write_error :: "path \<Rightarrow> exn option"

record world =
  dirs :: "path set"
  files :: "path \<rightharpoonup> string"
  trace :: "event list"
  posts :: nat

definition emit :: "event \<Rightarrow> world \<Rightarrow> world" where
  "emit e w = w\<lparr>trace := trace w @ [e]\<rparr>"

definition HEADERS_TTL :: string where
  "HEADERS_TTL = ''text/turtle''"

definition HEADERS_JSON :: string where
  "HEADERS_JSON = ''application/sparql-results+json''"

definition OUT_DIR :: "env \<Rightarrow> path" where
  "OUT_DIR E = home E @ [''Desktop'', ''kwg_maine_cropland_by_county'']"

definition ancestors :: "path \<Rightarrow> path list" where
  \<comment> \<open>the directory itself and its parents\<close>
  "ancestors p = map (\<lambda>k. take k p) [1 ..< Suc (length p)]"

definition mkdir_p :: "env \<Rightarrow> path \<Rightarrow> world \<Rightarrow> (exn + unit) \<times> world" where
  "mkdir_p E p w =
     (case mkdir_error E of
        Some e \<Rightarrow> (Inl e, emit (MkDir p) w)
      | None \<Rightarrow> (Inr (), emit (MkDir p) (w\<lparr>dirs := dirs w \<union> set (ancestors p)\<rparr>)))"

definition write_text :: "env \<Rightarrow> path \<Rightarrow> string \<Rightarrow> world \<Rightarrow> (exn + unit) \<times> world" where
  "write_text E p t w =
     (case write_error E p of
        Some e \<Rightarrow> (Inl e, w)
      | None \<Rightarrow> (Inr (), emit (Wrote p t) (w\<lparr>files := (files w)(p \<mapsto> t)\<rparr>)))"

definition sleep :: "nat \<Rightarrow> world \<Rightarrow> world" where
  "sleep ms w = emit (Slept ms) w"

definition requests_post :: "env \<Rightarrow> string \<Rightarrow> string \<Rightarrow> world \<Rightarrow> (exn + response) \<times> world" where
  "requests_post E accept q w =
     (http_post E (posts w) accept q, emit (Post accept q) (w\<lparr>posts := Suc (posts w)\<rparr>))"

definition raise_for_status :: "response \<Rightarrow> exn + unit" where
  \<comment> \<open>the library raises for the client and server error statuses\<close>
  "raise_for_status r =
     (if 400 \<le> status_code r \<and> status_code r < 600
      then Inl (HTTPError (status_code r) (resp_text r)) else Inr ())"

definition getitem :: "(string \<rightharpoonup> 'v) \<Rightarrow> string \<Rightarrow> exn + 'v" where
  \<comment> \<open>\<^verbatim>\<open>d[k]\<close>\<close>
  "getitem d k = (case d k of None \<Rightarrow> Inl (KeyError k) | Some v \<Rightarrow> Inr v)"

section \<open>Endpoint client\<close>

definition run_select :: "env \<Rightarrow> string \<Rightarrow> world \<Rightarrow> (exn + select_json) \<times> world" where
  "run_select E query w =
     (case requests_post E HEADERS_JSON query w of
        (Inl e, w') \<Rightarrow> (Inl e, w')
      | (Inr resp, w') \<Rightarrow>
          (case raise_for_status resp of
             Inl e \<Rightarrow> (Inl e, w')
           | Inr _ \<Rightarrow> (resp_json resp, w')))"

definition run_construct :: "env \<Rightarrow> string \<Rightarrow> world \<Rightarrow> (exn + string) \<times> world" where
  "run_construct E query w =
     (case requests_post E HEADERS_TTL query w of
        (Inl e, w') \<Rightarrow> (Inl e, w')
      | (Inr resp, w') \<Rightarrow>
          (case raise_for_status resp of
             Inl e \<Rightarrow> (Inl e, w')
           | Inr _ \<Rightarrow> (Inr (resp_text resp), w')))"

section \<open>Entity enumerator\<close>

definition select_query :: string where
  \<comment> \<open>the text \<^verbatim>\<open>q\<close> of \<^verbatim>\<open>get_maine_counties\<close>\<close>
  \<open>select_query =
       ''\<newline>''
     @ ''PREFIX kwg-ont: <http://stko-kwg.geog.ucsb.edu/lod/ontology/>\<newline>''
     @ ''PREFIX kwgr: <http://stko-kwg.geog.ucsb.edu/lod/resource/>\<newline>''
     @ ''PREFIX rdfs: <http://www.w3.org/2000/01/rdf-schema#>\<newline>''
     @ ''\<newline>''
     @ ''SELECT DISTINCT ?county ?label\<newline>''
     @ ''WHERE {\<newline>''
     @ ''  ?county kwg-ont:administrativePartOf kwgr:administrativeRegion.USA.23 ;\<newline>''
     @ ''          rdfs:label ?label .\<newline>''
     @ ''  FILTER(CONTAINS(STR(?county), "administrativeRegion.USA.23"))\<newline>''
     @ ''}\<newline>''
     @ ''ORDER BY ?label\<newline>''\<close>

definition binding_pair :: "binding \<Rightarrow> exn + (string \<times> string)" where
  \<comment> \<open>one round of the loop over the bindings\<close>
  "binding_pair b =
     (case getitem b ''county'' of
        Inl e \<Rightarrow> Inl e
      | Inr c \<Rightarrow>
          (case getitem c ''value'' of
             Inl e \<Rightarrow> Inl e
           | Inr county_iri \<Rightarrow>
               (case getitem b ''label'' of
                  Inl e \<Rightarrow> Inl e
                | Inr l \<Rightarrow>
                    (case getitem l ''value'' of
                       Inl e \<Rightarrow> Inl e
                     | Inr label \<Rightarrow> Inr (county_iri, label)))))"

fun collect_counties :: "binding list \<Rightarrow> exn + (string \<times> string) list" where
  \<comment> \<open>the loop \<^verbatim>\<open>for b in bindings: ... counties.append(...)\<close>\<close>
  "collect_counties [] = Inr []"
| "collect_counties (b # bs) =
     (case binding_pair b of
        Inl e \<Rightarrow> Inl e
      | Inr p \<Rightarrow>
          (case collect_counties bs of
             Inl e \<Rightarrow> Inl e
           | Inr ps \<Rightarrow> Inr (p # ps)))"

definition get_maine_counties :: "env \<Rightarrow> world \<Rightarrow> (exn + (string \<times> string) list) \<times> world" where
  "get_maine_counties E w =
     (case run_select E select_query w of
        (Inl e, w') \<Rightarrow> (Inl e, w')
      | (Inr data, w') \<Rightarrow>
          (case getitem data ''results'' of
             Inl e \<Rightarrow> (Inl e, w')
           | Inr results \<Rightarrow>
               (case getitem results ''bindings'' of
                  Inl e \<Rightarrow> (Inl e, w')
                | Inr bindings \<Rightarrow> (collect_counties bindings, w'))))"

section \<open>Export driver\<close>

definition construct_head :: string where
  \<comment> \<open>the template of \<^verbatim>\<open>construct_for_county\<close> up to the placeholder\<close>
  \<open>construct_head =
       ''\<newline>''
     @ ''PREFIX owl: <http://www.w3.org/2002/07/owl#>\<newline>''
     @ ''PREFIX kwg-ont: <http://stko-kwg.geog.ucsb.edu/lod/ontology/>\<newline>''
     @ ''PREFIX kwgr: <http://stko-kwg.geog.ucsb.edu/lod/resource/>\<newline>''
     @ ''PREFIX sosa: <http://www.w3.org/ns/sosa/>\<newline>''
     @ ''PREFIX rdfs: <http://www.w3.org/2000/01/rdf-schema#>\<newline>''
     @ ''PREFIX rdf: <http://www.w3.org/1999/02/22-rdf-syntax-ns#>\<newline>''
     @ ''\<newline>''
     @ ''CONSTRUCT {\<newline>''
     @ ''    ?s2Cell sosa:isFeatureOfInterestOf ?croplandObsCollection .\<newline>''
     @ ''    ?croplandObsCollection rdf:type kwg-ont:CroplandS2OverlapObservationCollection .\<newline>''
     @ ''    ?croplandObsCollection rdfs:label ?label .\<newline>''
     @ ''    ?croplandObsCollection sosa:phenomenonTime ?kwgrInstant .\<newline>''
     @ ''    ?croplandObsCollection sosa:hasMember ?CroplandS2OverlapObservation .\<newline>''
     @ ''    ?CroplandS2OverlapObservation rdf:type kwg-ont:CroplandS2OverlapObservation .\<newline>''
     @ ''    ?CroplandS2OverlapObservation rdfs:label ?description .\<newline>''
     @ ''    ?CroplandS2OverlapObservation sosa:observedProperty ?observedProperty .\<newline>''
     @ ''    ?CroplandS2OverlapObservation sosa:hasSimpleResult ?sosaSimpleResult .\<newline>''
     @ ''}\<newline>''
     @ ''WHERE {\<newline>''
     @ ''    <''\<close>

definition construct_tail :: string where
  \<comment> \<open>the template after the placeholder\<close>
  \<open>construct_tail =
       ''> kwg-ont:sfContains ?s2Cell .\<newline>''
     @ ''    ?s2Cell sosa:isFeatureOfInterestOf ?croplandObsCollection .\<newline>''
     @ ''    ?croplandObsCollection rdf:type kwg-ont:CroplandS2OverlapObservationCollection .\<newline>''
     @ ''    ?croplandObsCollection rdfs:label ?label .\<newline>''
     @ ''    ?croplandObsCollection sosa:phenomenonTime ?kwgrInstant .\<newline>''
     @ ''    ?croplandObsCollection sosa:hasMember ?CroplandS2OverlapObservation .\<newline>''
     @ ''    ?CroplandS2OverlapObservation rdf:type kwg-ont:CroplandS2OverlapObservation .\<newline>''
     @ ''    ?CroplandS2OverlapObservation rdfs:label ?description .\<newline>''
     @ ''    ?CroplandS2OverlapObservation sosa:observedProperty ?observedProperty .\<newline>''
     @ ''    ?CroplandS2OverlapObservation sosa:hasSimpleResult ?sosaSimpleResult .\<newline>''
     @ ''}\<newline>''\<close>

definition construct_for_county :: "string \<Rightarrow> string" where
  "construct_for_county county_iri = construct_head @ county_iri @ construct_tail"

definition out_name :: "string \<Rightarrow> string \<Rightarrow> string" where
  \<comment> \<open>\<^verbatim>\<open>f"cropland_{safe_filename(label)}_{fips}.ttl"\<close>\<close>
  "out_name label fips = ''cropland_'' @ safe_filename label @ ''_'' @ fips @ ''.ttl''"

definition looks_like_html :: "string \<Rightarrow> bool" where
  \<comment> \<open>the condition under which the sweep does not save\<close>
  "looks_like_html ttl_text =
     (startswith (lower (lstrip ttl_text)) ''<!doctype html''
      \<or> contains (lower (take 200 ttl_text)) ''<html'')"

definition export_county :: "env \<Rightarrow> nat \<Rightarrow> nat \<Rightarrow> string \<times> string \<Rightarrow> world \<Rightarrow> (exn + unit) \<times> world" where
  \<comment> \<open>the body of the loop of \<^verbatim>\<open>main\<close> for the \<open>i\<close>-th of \<open>n\<close> counties; \<open>Inr ()\<close> is both
      reaching the end of the body and \<^verbatim>\<open>continue\<close>, \<open>Inl e\<close> is an exception leaving the loop\<close>
  "export_county E n i c w =
     (case c of (county_iri, label) \<Rightarrow>
        (let fips = extract_fips_from_iri county_iri;
             fname = out_name label fips;
             out_path = OUT_DIR E @ [fname];
             w1 = emit (Printed (Exporting i n label county_iri fname)) w;
             q = construct_for_county county_iri
         in case run_construct E q w1 of
              (Inl (HTTPError st body), w2) \<Rightarrow>
                (Inr (), emit (Printed (ErrorBody (take 1000 body))) (emit (Printed (ErrorHTTP st)) w2))
            | (Inl e, w2) \<Rightarrow> (Inr (), emit (Printed (ErrorOther e)) w2)
            | (Inr ttl_text, w2) \<Rightarrow>
                if looks_like_html ttl_text
                then (Inr (), emit (Printed ErrorLooksLikeHtml) w2)
                else (case write_text E out_path ttl_text w2 of
                        (Inl e, w3) \<Rightarrow> (Inl e, w3)
                      | (Inr _, w3) \<Rightarrow> (Inr (), sleep 300 (emit (Printed (SavedKB out_path)) w3)))))"

fun export_loop :: "env \<Rightarrow> nat \<Rightarrow> nat \<Rightarrow> (string \<times> string) list \<Rightarrow> world \<Rightarrow> (exn + unit) \<times> world" where
  \<comment> \<open>\<^verbatim>\<open>for i, (county_iri, label) in enumerate(counties, start=1)\<close>\<close>
  "export_loop E n i [] w = (Inr (), w)"
| "export_loop E n i (c # cs) w =
     (case export_county E n i c w of
        (Inl e, w') \<Rightarrow> (Inl e, w')
      | (Inr _, w') \<Rightarrow> export_loop E n (Suc i) cs w')"

definition main :: "env \<Rightarrow> world \<Rightarrow> (exn + unit) \<times> world" where
  "main E w =
     (let w1 = emit (Printed (OutputDirectory (OUT_DIR E))) w;
          w2 = emit (Printed FetchingCounties) w1
      in case get_maine_counties E w2 of
           (Inl e, w3) \<Rightarrow> (Inl e, w3)
         | (Inr counties, w3) \<Rightarrow>
             (let w4 = emit (Printed (FoundCounties (length counties))) w3
              in case export_loop E (length counties) 1 counties w4 of
                   (Inl e, w5) \<Rightarrow> (Inl e, w5)
                 | (Inr _, w5) \<Rightarrow> (Inr (), emit (Printed Done) w5)))"

definition matching :: "string \<Rightarrow> (string \<times> string) list \<Rightarrow> (string \<times> string) list" where
  \<comment> \<open>\<^verbatim>\<open>[(iri, lbl) for iri, lbl in counties if extract_fips_from_iri(iri) == target_fips]\<close>\<close>
  "matching target_fips counties =
     filter (\<lambda>(iri, lbl). extract_fips_from_iri iri = target_fips) counties"

definition single_county :: "env \<Rightarrow> world \<Rightarrow> outcome \<times> world" where
  \<comment> \<open>the branch \<^verbatim>\<open>len(sys.argv) == 2\<close> of the script\<close>
  "single_county E w =
     (let target_fips = strip (argv E ! 1)
      in case get_maine_counties E w of
           (Inl e, w1) \<Rightarrow> (Uncaught e, w1)
         | (Inr counties, w1) \<Rightarrow>
             (case matching target_fips counties of
                [] \<Rightarrow> (SysExit 1, emit (Printed (NoCountyFound target_fips)) w1)
              | (county_iri, label) # _ \<Rightarrow>
                  (case mkdir_p E (OUT_DIR E) w1 of
                     (Inl e, w2) \<Rightarrow> (Uncaught e, w2)
                   | (Inr _, w2) \<Rightarrow>
                       (let out_path = OUT_DIR E @ [out_name label target_fips]
                        in case run_construct E (construct_for_county county_iri) w2 of
                             (Inl e, w3) \<Rightarrow> (Uncaught e, w3)
                           | (Inr ttl_text, w3) \<Rightarrow>
                               (case write_text E out_path ttl_text w3 of
                                  (Inl e, w4) \<Rightarrow> (Uncaught e, w4)
                                | (Inr _, w4) \<Rightarrow> (Finished, emit (Printed (Saved out_path)) w4))))))"

definition script :: "env \<Rightarrow> world \<Rightarrow> outcome \<times> world" where
  \<comment> \<open>the module from its first statement: the directory is made when \<^verbatim>\<open>OUT_DIR\<close> is
      defined, then the \<^verbatim>\<open>__main__\<close> block chooses the mode\<close>
  "script E w =
     (case mkdir_p E (OUT_DIR E) w of
        (Inl e, w0) \<Rightarrow> (Uncaught e, w0)
      | (Inr _, w0) \<Rightarrow>
          if length (argv E) = 2 then single_county E w0
          else (case main E w0 of
                  (Inl e, w1) \<Rightarrow> (Uncaught e, w1)
                | (Inr _, w1) \<Rightarrow> (Finished, w1)))"

section \<open>Properties the specification speaks of\<close>

text \<open>
  The predicates and reference functions below are not part of the script: they say, in
  executable form, what the statements of the next sections are about.
\<close>

subsection \<open>Shapes of strings\<close>

definition slug_char :: "char \<Rightarrow> bool" where
  \<comment> \<open>a character of the class \<^verbatim>\<open>[a-z0-9_]\<close>\<close>
  "slug_char c = (is_alnum c \<or> c = CHR ''_'')"

fun no_rep :: "string \<Rightarrow> bool" where
  \<comment> \<open>no two underscores in a row\<close>
  "no_rep (a # b # cs) = (\<not> (a = CHR ''_'' \<and> b = CHR ''_'') \<and> no_rep (b # cs))"
| "no_rep _ = True"

definition tidy :: "string \<Rightarrow> bool" where
  \<comment> \<open>the shape of a slug: the class above, single underscores, none at either end\<close>
  "tidy s = (list_all slug_char s \<and> no_rep s \<and> (s \<noteq> [] \<longrightarrow> hd s \<noteq> CHR ''_'' \<and> last s \<noteq> CHR ''_''))"

definition endswith :: "string \<Rightarrow> string \<Rightarrow> bool" where
  \<comment> \<open>\<^verbatim>\<open>s.endswith(suf)\<close>\<close>
  "endswith s suf = (length suf \<le> length s \<and> drop (length s - length suf) s = suf)"

definition trailing_digits :: "string \<Rightarrow> string" where
  \<comment> \<open>the longest run of digits at the end of the string\<close>
  "trailing_digits s = rev (takeWhile is_digit (rev s))"

definition extractCode_spec :: "string \<Rightarrow> string" where
  \<comment> \<open>the specification's words for \<^verbatim>\<open>extractCode\<close>: the trailing digit run when the
      identifier ends with the region literal followed by one or more digits, and the
      fallback token otherwise\<close>
  "extractCode_spec s =
     (let d = trailing_digits s
      in if d \<noteq> [] \<and> endswith (take (length s - length d) s) region_literal then d else ''unknown'')"

definition drop_final_newline :: "string \<Rightarrow> string" where
  \<comment> \<open>the string without its last character when that is a newline\<close>
  "drop_final_newline s = (if s \<noteq> [] \<and> last s = CHR 0x0A then butlast s else s)"

subsection \<open>Observing a run\<close>

definition new_events :: "world \<Rightarrow> world \<Rightarrow> event list" where
  \<comment> \<open>what a step from \<open>w\<close> to \<open>w'\<close> added to the trace\<close>
  "new_events w w' = drop (length (trace w)) (trace w')"

fun is_pause :: "event \<Rightarrow> bool" where
  "is_pause (Slept ms) = True"
| "is_pause _ = False"

fun is_wrote :: "event \<Rightarrow> bool" where
  "is_wrote (Wrote p t) = True"
| "is_wrote _ = False"

fun is_post :: "event \<Rightarrow> bool" where
  "is_post (Post a q) = True"
| "is_post _ = False"

definition construct_reply :: "env \<Rightarrow> nat \<Rightarrow> string \<Rightarrow> exn + string" where
  \<comment> \<open>what \<^verbatim>\<open>run_construct(construct_for_county(county_iri))\<close> returns or raises when it
      is the request number \<open>k\<close> of the run\<close>
  "construct_reply E k county_iri =
     (case http_post E k HEADERS_TTL (construct_for_county county_iri) of
        Inl e \<Rightarrow> Inl e
      | Inr resp \<Rightarrow>
          (case raise_for_status resp of
             Inl e \<Rightarrow> Inl e
           | Inr _ \<Rightarrow> Inr (resp_text resp)))"

definition out_path_of :: "env \<Rightarrow> string \<times> string \<Rightarrow> path" where
  \<comment> \<open>the output file of an entity \<open>(identifier, label)\<close>\<close>
  "out_path_of E c = OUT_DIR E @ [out_name (snd c) (extract_fips_from_iri (fst c))]"

definition after_post :: "nat \<Rightarrow> nat \<Rightarrow> string \<times> string \<Rightarrow> env \<Rightarrow> world \<Rightarrow> world" where
  \<comment> \<open>the world once the loop body has announced the entity and sent its request\<close>
  "after_post n i c E w =
     emit (Post HEADERS_TTL (construct_for_county (fst c)))
       ((emit (Printed (Exporting i n (snd c) (fst c) (out_name (snd c) (extract_fips_from_iri (fst c))))) w)
          \<lparr>posts := Suc (posts w)\<rparr>)"

definition counties_reply :: "env \<Rightarrow> nat \<Rightarrow> exn + (string \<times> string) list" where
  \<comment> \<open>what \<^verbatim>\<open>get_maine_counties()\<close> returns or raises when its request is number \<open>k\<close>\<close>
  "counties_reply E k =
     (case http_post E k HEADERS_JSON select_query of
        Inl e \<Rightarrow> Inl e
      | Inr resp \<Rightarrow>
          (case raise_for_status resp of
             Inl e \<Rightarrow> Inl e
           | Inr _ \<Rightarrow>
               (case resp_json resp of
                  Inl e \<Rightarrow> Inl e
                | Inr data \<Rightarrow>
                    (case getitem data ''results'' of
                       Inl e \<Rightarrow> Inl e
                     | Inr results \<Rightarrow>
                         (case getitem results ''bindings'' of
                            Inl e \<Rightarrow> Inl e
                          | Inr bindings \<Rightarrow> collect_counties bindings)))))"

definition sweep_start :: "env \<Rightarrow> nat \<Rightarrow> world \<Rightarrow> world" where
  \<comment> \<open>the world of a full sweep when the loop starts, after \<open>k\<close> counties were found\<close>
  "sweep_start E k w =
     emit (Printed (FoundCounties k))
       (emit (Post HEADERS_JSON select_query)
         ((emit (Printed FetchingCounties)
            (emit (Printed (OutputDirectory (OUT_DIR E)))
              (emit (MkDir (OUT_DIR E)) (w\<lparr>dirs := dirs w \<union> set (ancestors (OUT_DIR E))\<rparr>))))
           \<lparr>posts := Suc (posts w)\<rparr>))"

definition single_start :: "env \<Rightarrow> world \<Rightarrow> world" where
  \<comment> \<open>the world of a single-entity run once the counties were fetched\<close>
  "single_start E w =
     emit (Post HEADERS_JSON select_query)
       ((emit (MkDir (OUT_DIR E)) (w\<lparr>dirs := dirs w \<union> set (ancestors (OUT_DIR E))\<rparr>))
          \<lparr>posts := Suc (posts w)\<rparr>)"

subsection \<open>Example runs\<close>

text \<open>
  Concrete environments and replies, on which the statements are tried.
\<close>

definition county_binding :: "string \<Rightarrow> string \<Rightarrow> binding" where
  \<comment> \<open>a binding of the results format: each variable has a type and a value\<close>
  "county_binding iri label =
     [''county'' \<mapsto> [''type'' \<mapsto> ''uri'', ''value'' \<mapsto> iri],
      ''label'' \<mapsto> [''type'' \<mapsto> ''literal'', ''value'' \<mapsto> label]]"

definition select_response :: "binding list \<Rightarrow> response" where
  \<comment> \<open>the reply to the selection: status 200 and the bindings\<close>
  "select_response bs =
     \<lparr>status_code = 200, resp_text = [],
      resp_json = Inr [''results'' \<mapsto> [''bindings'' \<mapsto> bs]]\<rparr>"

definition ttl_response :: "nat \<Rightarrow> string \<Rightarrow> response" where
  \<comment> \<open>a reply to an extraction: a status and a body that is not JSON\<close>
  "ttl_response st body =
     \<lparr>status_code = st, resp_text = body, resp_json = Inl (OtherError ''JSONDecodeError'')\<rparr>"

definition example_env ::
  "string list \<Rightarrow> binding list \<Rightarrow> (nat \<Rightarrow> exn + response) \<Rightarrow> (path \<Rightarrow> exn option) \<Rightarrow> env" where
  \<comment> \<open>an endpoint that answers the selection with the bindings \<open>bs\<close> and the request number
      \<open>k\<close>, when it is an extraction, with \<open>ttl k\<close>\<close>
  "example_env args bs ttl wr =
     \<lparr>home = [''home'', ''user''], argv = args,
      http_post = (\<lambda>k accept q. if accept = HEADERS_JSON then Inr (select_response bs) else ttl k),
      mkdir_error = None, write_error = wr\<rparr>"

definition empty_world :: world where
  \<comment> \<open>nothing on disk, nothing done yet\<close>
  "empty_world = \<lparr>dirs = {}, files = Map.empty, trace = [], posts = 0\<rparr>"

definition iri_23001 :: string where
  "iri_23001 = ''http://stko-kwg.geog.ucsb.edu/lod/resource/administrativeRegion.USA.23001''"

definition iri_23003 :: string where
  "iri_23003 = ''http://stko-kwg.geog.ucsb.edu/lod/resource/administrativeRegion.USA.23003''"

definition two_counties :: "binding list" where
  \<comment> \<open>the reply of the scenario, in label order\<close>
  "two_counties =
     [county_binding iri_23001 ''Androscoggin County, Maine'',
      county_binding iri_23003 ''Aroostook County, Maine'']"

definition html_page :: string where
  \<comment> \<open>an error page, as a server sends it with status 200\<close>
  "html_page = ''<!DOCTYPE html><html><body>Service unavailable</body></html>''"

definition turtle_doc :: string where
  \<comment> \<open>a Turtle document\<close>
  "turtle_doc = ''@prefix sosa: <http://www.w3.org/ns/sosa/> .''"

definition env_all_500 :: env where
  \<comment> \<open>a sweep in which every extraction is answered 500\<close>
  "env_all_500 = example_env [''prog''] two_counties (\<lambda>k. Inr (ttl_response 500 ''Internal Server Error'')) (\<lambda>p. None)"

definition env_first_500 :: env where
  \<comment> \<open>a sweep in which the first extraction (request number 1) is answered 500\<close>
  "env_first_500 = example_env [''prog''] two_counties
     (\<lambda>k. if k = 1 then Inr (ttl_response 500 ''Internal Server Error'') else Inr (ttl_response 200 turtle_doc))
     (\<lambda>p. None)"

definition env_write_denied :: env where
  \<comment> \<open>a sweep in which every file write raises\<close>
  "env_write_denied = example_env [''prog''] two_counties
     (\<lambda>k. Inr (ttl_response 200 turtle_doc)) (\<lambda>p. Some (OSError ''Permission denied''))"

definition env_single :: "string \<Rightarrow> (nat \<Rightarrow> exn + response) \<Rightarrow> (path \<Rightarrow> exn option) \<Rightarrow> env" where
  \<comment> \<open>a single-entity run for the code given\<close>
  "env_single code ttl wr = example_env [''prog'', code] two_counties ttl wr"

definition iri_23003_alt :: string where
  \<comment> \<open>a second identifier that ends in the code 23003\<close>
  "iri_23003_alt = ''http://example.org/administrativeRegion.USA.23003''"

definition shared_code_counties :: "binding list" where
  \<comment> \<open>a reply in which the second and the third county have the same code\<close>
  "shared_code_counties =
     [county_binding iri_23001 ''Androscoggin County, Maine'',
      county_binding iri_23003 ''Aroostook County, Maine'',
      county_binding iri_23003_alt ''Aroostook Plantation, Maine'']"

definition env_shared_code :: env where
  \<comment> \<open>a single-entity run for the code 23003 over that reply\<close>
  "env_shared_code = example_env [''prog'', ''23003''] shared_code_counties
     (\<lambda>k. Inr (ttl_response 200 turtle_doc)) (\<lambda>p. None)"

definition unsorted_bindings :: "binding list" where
  \<comment> \<open>a reply out of label order, with a repeated pair\<close>
  "unsorted_bindings =
     [county_binding ''urn:b'' ''Beta'', county_binding ''urn:a'' ''Alpha'',
      county_binding ''urn:a'' ''Alpha'']"

section \<open>The slug of a label\<close>

lemma ord_underscore: "ord (CHR ''_'') = 95" by (simp add: ord_def)
lemma ord_amp: "ord (CHR ''&'') = 38" by (simp add: ord_def)

lemma underscore_not_alnum: "\<not> is_alnum (CHR ''_'')"
  by (simp add: is_alnum_def is_az_def is_digit_def ord_underscore)

lemma slug_char_not_space: "slug_char c \<Longrightarrow> \<not> is_space c"
  by (auto simp: slug_char_def is_alnum_def is_az_def is_digit_def is_space_def ord_underscore)

lemma slug_char_lower: "slug_char c \<Longrightarrow> lower_char c = c"
  by (auto simp: slug_char_def is_alnum_def is_az_def is_digit_def lower_char_def is_upper_def ord_underscore)

lemma slug_char_not_amp: "slug_char c \<Longrightarrow> c \<noteq> CHR ''&''"
  by (auto simp: slug_char_def is_alnum_def is_az_def is_digit_def ord_amp)

lemma lower_slug: "list_all slug_char s \<Longrightarrow> lower s = s"
  by (induction s) (auto simp: lower_def slug_char_lower)

lemma replace_slug: "list_all slug_char s \<Longrightarrow> replace_char (CHR ''&'') r s = s"
  by (induction s) (auto simp: replace_char_def slug_char_not_amp)

lemma strip_with_id: "s \<noteq> [] \<Longrightarrow> \<not> P (hd s) \<Longrightarrow> \<not> P (last s) \<Longrightarrow> strip_with P s = s"
  by (cases s) (auto simp: strip_with_def lstrip_with_def rstrip_with_def last_rev hd_rev dropWhile_eq_self_iff hd_append split: if_splits)

lemma sub_runs_id:
  "no_rep s \<Longrightarrow> list_all slug_char s \<Longrightarrow> re_sub_runs (\<lambda>c. \<not> is_alnum c) ''_'' s = s"
proof (induction s rule: no_rep.induct)
  case (1 a b cs)
  then show ?case by (auto simp: slug_char_def)
qed (auto simp: slug_char_def)

lemma sub_us_id:
  "no_rep s \<Longrightarrow> re_sub_runs (\<lambda>c. c = CHR ''_'') ''_'' s = s"
proof (induction s rule: no_rep.induct)
  case (1 a b cs)
  then show ?case by auto
qed auto

lemma tidy_fix:
  assumes "tidy s" "s \<noteq> []"
  shows "safe_filename s = s"
proof -
  from assms have a: "list_all slug_char s" and n: "no_rep s"
    and h: "hd s \<noteq> CHR ''_''" and l: "last s \<noteq> CHR ''_''"
    by (auto simp: tidy_def)
  have hs: "\<not> is_space (hd s)" using a assms(2) by (cases s) (auto simp: slug_char_not_space)
  have ls: "\<not> is_space (last s)" using a assms(2)
    by (metis slug_char_not_space last_in_set list_all_iff)
  have 1: "strip s = s" using assms(2) hs ls by (simp add: strip_def strip_with_id)
  have 2: "strip_chars ''_'' s = s" using assms(2) h l by (simp add: strip_chars_def strip_with_id)
  show ?thesis using assms(2)
    by (simp add: safe_filename_def 1 lower_slug[OF a] replace_slug[OF a] sub_runs_id[OF n a] sub_us_id[OF n] 2)
qed


lemma sub_runs_slug: "list_all slug_char (re_sub_runs (\<lambda>c. \<not> is_alnum c) ''_'' s)"
  by (induction "\<lambda>c. \<not> is_alnum c" "''_''" s rule: re_sub_runs.induct) (auto simp: slug_char_def)

lemma sub_us_slug: "list_all slug_char s \<Longrightarrow> list_all slug_char (re_sub_runs (\<lambda>c. c = CHR ''_'') ''_'' s)"
proof (induction "\<lambda>c. c = CHR ''_''" "''_''" s rule: re_sub_runs.induct)
  case 1
  then show ?case by simp
next
  case (2 c cs)
  have "list_all slug_char (dropWhile (\<lambda>c. c = CHR ''_'') cs)"
    using 2(3) by (auto simp: list_all_iff dest: set_dropWhileD)
  with 2 show ?case by (auto simp: slug_char_def)
qed

lemma no_rep_Cons: "a \<noteq> CHR ''_'' \<Longrightarrow> no_rep (a # s) = no_rep s"
  by (cases s) auto

lemma no_rep_us_Cons: "no_rep (CHR ''_'' # s) = (no_rep s \<and> (s \<noteq> [] \<longrightarrow> hd s \<noteq> CHR ''_''))"
  by (cases s) auto

lemma sub_us_hd: "s \<noteq> [] \<Longrightarrow> hd s \<noteq> CHR ''_'' \<Longrightarrow> hd (re_sub_runs (\<lambda>c. c = CHR ''_'') ''_'' s) = hd s"
  by (cases s) auto

lemma sub_us_nonempty: "s \<noteq> [] \<Longrightarrow> re_sub_runs (\<lambda>c. c = CHR ''_'') ''_'' s \<noteq> []"
  by (cases s) auto

lemma sub_us_no_rep: "no_rep (re_sub_runs (\<lambda>c. c = CHR ''_'') ''_'' s)"
proof (induction "\<lambda>c. c = CHR ''_''" "''_''" s rule: re_sub_runs.induct)
  case 1
  then show ?case by simp
next
  case (2 c cs)
  show ?case
  proof (cases "c = CHR ''_''")
    case True
    let ?d = "dropWhile (\<lambda>c. c = CHR ''_'') cs"
    have nr: "no_rep (re_sub_runs (\<lambda>c. c = CHR ''_'') ''_'' ?d)" using 2(1) True by simp
    have "?d \<noteq> [] \<Longrightarrow> hd ?d \<noteq> CHR ''_''" using hd_dropWhile[of "\<lambda>c. c = CHR ''_''" cs] by simp
    then have "re_sub_runs (\<lambda>c. c = CHR ''_'') ''_'' ?d \<noteq> [] \<Longrightarrow>
               hd (re_sub_runs (\<lambda>c. c = CHR ''_'') ''_'' ?d) \<noteq> CHR ''_''"
      by (cases "?d = []") (auto simp: sub_us_hd)
    with nr True show ?thesis by (simp add: no_rep_us_Cons)
  next
    case False
    with 2(2) show ?thesis by (simp add: no_rep_Cons)
  qed
qed

lemma no_rep_append:
  "no_rep (xs @ ys) = (no_rep xs \<and> no_rep ys \<and> (xs \<noteq> [] \<and> ys \<noteq> [] \<longrightarrow> \<not> (last xs = CHR ''_'' \<and> hd ys = CHR ''_'')))"
proof (induction xs rule: no_rep.induct)
  case (1 a b cs)
  then show ?case by auto
next
  case "2_1"
  then show ?case by simp
next
  case "2_2"
  then show ?case by (cases ys) auto
qed

lemma no_rep_rev: "no_rep (rev s) = no_rep s"
proof (induction s)
  case Nil
  then show ?case by simp
next
  case (Cons a s)
  then show ?case
    by (cases s) (auto simp: no_rep_append last_rev no_rep_us_Cons no_rep_Cons hd_rev)
qed

lemma no_rep_dropWhile: "no_rep s \<Longrightarrow> no_rep (dropWhile P s)"
proof (induction s rule: no_rep.induct)
  case (1 a b cs)
  then show ?case by auto
qed auto

lemma no_rep_strip: "no_rep s \<Longrightarrow> no_rep (strip_with P s)"
  by (simp add: strip_with_def lstrip_with_def rstrip_with_def no_rep_rev no_rep_dropWhile)

lemma slug_strip: "list_all slug_char s \<Longrightarrow> list_all slug_char (strip_with P s)"
  by (auto simp: strip_with_def lstrip_with_def rstrip_with_def list_all_iff dest!: set_dropWhileD)

lemma strip_with_ends:
  assumes "strip_with P s \<noteq> []"
  shows "\<not> P (hd (strip_with P s)) \<and> \<not> P (last (strip_with P s))"
proof -
  let ?l = "dropWhile P s"
  let ?r = "dropWhile P (rev ?l)"
  from assms have ne: "?r \<noteq> []" by (simp add: strip_with_def lstrip_with_def rstrip_with_def)
  then have lne: "?l \<noteq> []" by (metis dropWhile.simps(1) rev.simps(1))
  have a: "\<not> P (hd ?r)" using ne hd_dropWhile by blast
  have b: "\<not> P (hd ?l)" using lne hd_dropWhile by blast
  obtain zs where z: "rev ?l = zs @ ?r" by (metis takeWhile_dropWhile_id)
  then have "?l = rev ?r @ rev zs" by (metis rev_append rev_rev_ident)
  then have "hd ?l = hd (rev ?r)" using ne by (metis hd_append2 rev_is_Nil_conv)
  with a b ne show ?thesis
    by (simp add: strip_with_def lstrip_with_def rstrip_with_def last_rev)
qed

lemma tidy_out:
  "tidy (strip_chars ''_'' (re_sub_runs (\<lambda>c. c = CHR ''_'') ''_'' (re_sub_runs (\<lambda>c. \<not> is_alnum c) ''_'' s)))"
  using strip_with_ends[of "\<lambda>c. c \<in> set ''_''" "re_sub_runs (\<lambda>c. c = CHR ''_'') ''_'' (re_sub_runs (\<lambda>c. \<not> is_alnum c) ''_'' s)"]
  by (auto simp: tidy_def strip_chars_def slug_strip sub_us_slug sub_runs_slug no_rep_strip sub_us_no_rep)

lemma fallback_fix: "safe_filename ''unknown_county'' = ''unknown_county''"
  by code_simp

lemma fallback_slug: "list_all slug_char ''unknown_county''"
  by code_simp

lemma safe_filename_cases:
  "safe_filename x = ''unknown_county'' \<or> (tidy (safe_filename x) \<and> safe_filename x \<noteq> [])"
  using tidy_out[of "replace_char (CHR ''&'') ''and'' (lower (strip x))"]
  by (auto simp: safe_filename_def Let_def)

text \<open>
  Claim C5.  \<^verbatim>\<open>safe_filename\<close> (the specification's \<^verbatim>\<open>slugify\<close>) is a total function, and
  applying it twice gives what applying it once gives.  Its result consists of characters
  of \<^verbatim>\<open>[a-z0-9_]\<close> only (the fallback token \<^verbatim>\<open>unknown_county\<close> is of that form too), and
  never holds the character \<^verbatim>\<open>&\<close>.
\<close>

theorem safe_filename_idempotent:
  "safe_filename (safe_filename x) = safe_filename x
   \<and> (list_all slug_char (safe_filename x) \<or> safe_filename x = ''unknown_county'')
   \<and> CHR ''&'' \<notin> set (safe_filename x)"
proof -
  from safe_filename_cases[of x] have i: "safe_filename (safe_filename x) = safe_filename x"
    by (auto simp: fallback_fix tidy_fix)
  have s: "list_all slug_char (safe_filename x)"
  proof (cases "safe_filename x = ''unknown_county''")
    case True
    then show ?thesis by (simp only: fallback_slug)
  next
    case False
    with safe_filename_cases[of x] show ?thesis by (simp add: tidy_def)
  qed
  then have "CHR ''&'' \<notin> set (safe_filename x)"
    by (auto simp: list_all_iff dest: slug_char_not_amp)
  with i s show ?thesis by simp
qed

section \<open>The code of an identifier\<close>

lemma newline_not_digit: "\<not> is_digit (CHR 0x0A)"
  by (simp add: is_digit_def ord_def)

lemma dot_not_digit: "\<not> is_digit (CHR ''.'')"
  by (simp add: is_digit_def ord_def)

lemma region_literal_last: "region_literal = ''administrativeRegion.USA'' @ [CHR ''.'']"
  by (simp add: region_literal_def)

lemma match_here_iff:
  "match_here t = Some d \<longleftrightarrow>
     (\<exists>e. t = region_literal @ d @ e \<and> d \<noteq> [] \<and> list_all is_digit d \<and> (e = [] \<or> e = [CHR 0x0A]))"
proof
  assume m: "match_here t = Some d"
  then have sw: "take (length region_literal) t = region_literal"
    by (simp add: match_here_def startswith_def split: if_splits)
  let ?r = "drop (length region_literal) t"
  from m have d: "d = takeWhile is_digit ?r" and ne: "d \<noteq> []"
    and ad: "at_dollar (dropWhile is_digit ?r)"
    by (auto simp: match_here_def Let_def split: if_splits)
  have "t = take (length region_literal) t @ ?r" by simp
  also have "\<dots> = region_literal @ d @ dropWhile is_digit ?r" by (simp add: sw d)
  finally have "t = region_literal @ d @ dropWhile is_digit ?r" .
  moreover have "list_all is_digit d" by (auto simp: d list_all_iff dest: set_takeWhileD)
  ultimately show "\<exists>e. t = region_literal @ d @ e \<and> d \<noteq> [] \<and> list_all is_digit d \<and> (e = [] \<or> e = [CHR 0x0A])"
    using ne ad by (auto simp: at_dollar_def)
next
  assume "\<exists>e. t = region_literal @ d @ e \<and> d \<noteq> [] \<and> list_all is_digit d \<and> (e = [] \<or> e = [CHR 0x0A])"
  then obtain e where t: "t = region_literal @ d @ e" and ne: "d \<noteq> []" and dg: "list_all is_digit d"
    and e: "e = [] \<or> e = [CHR 0x0A]" by blast
  have tw: "takeWhile is_digit (d @ e) = d" using dg e
    by (auto simp: list_all_iff takeWhile_append2 newline_not_digit)
  have dw: "dropWhile is_digit (d @ e) = e" using dg e
    by (auto simp: list_all_iff dropWhile_append2 newline_not_digit)
  have r: "drop (length region_literal) t = d @ e" by (simp add: t)
  have sw: "startswith t region_literal" by (simp add: startswith_def t)
  show "match_here t = Some d"
    unfolding match_here_def Let_def r tw dw using sw ne e by (simp add: at_dollar_def)
qed

lemma re_search_unfold:
  "re_search t = (case match_here t of Some d \<Rightarrow> Some d | None \<Rightarrow> (case t of [] \<Rightarrow> None | c # cs \<Rightarrow> re_search cs))"
  by (cases t) (auto simp: match_here_def startswith_def region_literal_def split: option.splits)

lemma re_search_SomeD:
  "re_search s = Some d \<Longrightarrow>
     \<exists>p e. s = p @ region_literal @ d @ e \<and> d \<noteq> [] \<and> list_all is_digit d \<and> (e = [] \<or> e = [CHR 0x0A])"
proof (induction s)
  case Nil
  then show ?case by (simp add: match_here_def startswith_def region_literal_def)
next
  case (Cons c cs)
  show ?case
  proof (cases "match_here (c # cs)")
    case None
    with Cons.prems have "re_search cs = Some d" by simp
    from Cons.IH[OF this] obtain p e where "cs = p @ region_literal @ d @ e" "d \<noteq> []" "list_all is_digit d" "e = [] \<or> e = [CHR 0x0A]"
      by blast
    then have "c # cs = (c # p) @ region_literal @ d @ e" by simp
    then show ?thesis using \<open>d \<noteq> []\<close> \<open>list_all is_digit d\<close> \<open>e = [] \<or> e = [CHR 0x0A]\<close> by blast
  next
    case (Some d')
    with Cons.prems have "d' = d" by simp
    with Some have "match_here (c # cs) = Some d" by simp
    then obtain e where "c # cs = [] @ region_literal @ d @ e" "d \<noteq> []" "list_all is_digit d" "e = [] \<or> e = [CHR 0x0A]"
      by (auto simp: match_here_iff)
    then show ?thesis by blast
  qed
qed

lemma trailing_digits_app:
  assumes "list_all is_digit d"
  shows "trailing_digits (p @ region_literal @ d) = d"
proof -
  have r: "rev (p @ region_literal @ d) = rev d @ CHR ''.'' # rev (p @ ''administrativeRegion.USA'')"
    by (simp add: region_literal_last)
  have "takeWhile is_digit (rev d @ CHR ''.'' # rev (p @ ''administrativeRegion.USA'')) = rev d"
    using assms by (subst takeWhile_append2) (auto simp: list_all_iff dot_not_digit)
  then show ?thesis unfolding trailing_digits_def r by simp
qed

lemma tail_unique:
  assumes "p @ region_literal @ d @ e = p' @ region_literal @ d' @ e'"
    and "list_all is_digit d" "list_all is_digit d'" "d \<noteq> []" "d' \<noteq> []"
    and "e = [] \<or> e = [CHR 0x0A]" "e' = [] \<or> e' = [CHR 0x0A]"
  shows "d = d'"
proof -
  have l: "last d \<noteq> CHR 0x0A" "last d' \<noteq> CHR 0x0A"
    using assms(2-5) newline_not_digit by (metis last_in_set list_all_iff)+
  have "e = e'"
  proof (rule ccontr)
    assume "e \<noteq> e'"
    with assms(6,7) consider "e = []" "e' = [CHR 0x0A]" | "e = [CHR 0x0A]" "e' = []" by auto
    then show False
    proof cases
      case 1
      with assms(1) have "last (p @ region_literal @ d) = last (p' @ region_literal @ d' @ [CHR 0x0A])" by simp
      then show False using l assms(4) by simp
    next
      case 2
      with assms(1) have "last (p @ region_literal @ d @ [CHR 0x0A]) = last (p' @ region_literal @ d')" by simp
      then show False using l assms(5) by simp
    qed
  qed
  with assms(1) have "p @ region_literal @ d = p' @ region_literal @ d'" by simp
  then have "trailing_digits (p @ region_literal @ d) = trailing_digits (p' @ region_literal @ d')" by simp
  then show ?thesis using assms(2,3) by (simp add: trailing_digits_app)
qed

lemma re_search_SomeI:
  assumes "d \<noteq> []" "list_all is_digit d" "e = [] \<or> e = [CHR 0x0A]"
  shows "re_search (p @ region_literal @ d @ e) = Some d"
proof (induction p)
  case Nil
  have "match_here (region_literal @ d @ e) = Some d" using assms by (auto simp: match_here_iff)
  then show ?case by (simp add: re_search_unfold)
next
  case (Cons c p)
  show ?case
  proof (cases "match_here (c # p @ region_literal @ d @ e)")
    case None
    then show ?thesis using Cons by simp
  next
    case (Some d')
    then obtain e' where "c # p @ region_literal @ d @ e = [] @ region_literal @ d' @ e'"
      "d' \<noteq> []" "list_all is_digit d'" "e' = [] \<or> e' = [CHR 0x0A]"
      by (auto simp: match_here_iff)
    then have "(c # p) @ region_literal @ d @ e = [] @ region_literal @ d' @ e'" by simp
    from tail_unique[OF this assms(2) \<open>list_all is_digit d'\<close> assms(1) \<open>d' \<noteq> []\<close> assms(3) \<open>e' = [] \<or> e' = [CHR 0x0A]\<close>]
    have "d = d'" .
    with Some show ?thesis by simp
  qed
qed

lemma spec_SomeI:
  assumes "d \<noteq> []" "list_all is_digit d"
  shows "extractCode_spec (p @ region_literal @ d) = d"
  using assms by (simp add: extractCode_spec_def trailing_digits_app endswith_def)

lemma spec_cases:
  "extractCode_spec u = ''unknown'' \<or>
   (\<exists>p d. u = p @ region_literal @ d \<and> d \<noteq> [] \<and> list_all is_digit d)"
proof (cases "trailing_digits u \<noteq> [] \<and> endswith (take (length u - length (trailing_digits u)) u) region_literal")
  case False
  then show ?thesis by (auto simp: extractCode_spec_def Let_def)
next
  case True
  let ?d = "trailing_digits u"
  let ?h = "take (length u - length ?d) u"
  have dg: "list_all is_digit ?d" by (auto simp: trailing_digits_def list_all_iff dest: set_takeWhileD)
  have "rev u = takeWhile is_digit (rev u) @ dropWhile is_digit (rev u)" by simp
  then have "u = rev (dropWhile is_digit (rev u)) @ ?d"
    unfolding trailing_digits_def by (metis rev_append rev_rev_ident)
  then have u: "u = ?h @ ?d" by (metis append_eq_conv_conj append_take_drop_id length_append add_diff_cancel_right')
  from True have "?h = take (length ?h - length region_literal) ?h @ region_literal"
    unfolding endswith_def by (metis append_take_drop_id)
  with u have "u = take (length ?h - length region_literal) ?h @ region_literal @ ?d" by (metis append.assoc)
  with True dg show ?thesis by blast
qed

text \<open>
  Claim C6, as amended.  \<^verbatim>\<open>extract_fips_from_iri\<close> is a total function of the identifier.
  Its result is what the specification describes, \<^const>\<open>extractCode_spec\<close>, computed on the
  identifier without one final newline: the pattern ends in \<^verbatim>\<open>$\<close>, which also matches just
  before a newline that ends the string.  On an identifier that does not end in a newline
  the two agree.
\<close>

theorem extract_fips_from_iri_suffix:
  "extract_fips_from_iri s = extractCode_spec (drop_final_newline s)"
proof (cases "re_search s")
  case (Some d)
  from re_search_SomeD[OF this] obtain p e where s: "s = p @ region_literal @ d @ e"
    and ne: "d \<noteq> []" and dg: "list_all is_digit d" and e: "e = [] \<or> e = [CHR 0x0A]" by blast
  have ld: "last d \<noteq> CHR 0x0A" using ne dg newline_not_digit by (metis last_in_set list_all_iff)
  have "drop_final_newline s = p @ region_literal @ d"
    using e ne ld by (auto simp: s drop_final_newline_def butlast_append)
  then show ?thesis using Some ne dg by (simp add: extract_fips_from_iri_def spec_SomeI)
next
  case None
  have "extractCode_spec (drop_final_newline s) = ''unknown''"
  proof (rule ccontr)
    assume "extractCode_spec (drop_final_newline s) \<noteq> ''unknown''"
    with spec_cases[of "drop_final_newline s"] obtain p d where
      u: "drop_final_newline s = p @ region_literal @ d" and ne: "d \<noteq> []" and dg: "list_all is_digit d"
      by blast
    have "s = drop_final_newline s @ [] \<or> s = drop_final_newline s @ [CHR 0x0A]"
      by (auto simp: drop_final_newline_def) (metis append_butlast_last_id)
    then obtain e where "s = p @ region_literal @ d @ e" "e = [] \<or> e = [CHR 0x0A]" using u by auto
    with re_search_SomeI[OF ne dg, of e p] None show False by simp
  qed
  with None show ?thesis by (simp add: extract_fips_from_iri_def)
qed

text \<open>
  The claim as first stated fails on an identifier that ends in a newline: it does not end
  with the literal and digits, yet the digits are returned, not the fallback token.
\<close>

theorem extract_fips_trailing_newline:
  "extract_fips_from_iri ''http://stko-kwg.geog.ucsb.edu/lod/resource/administrativeRegion.USA.23001\<newline>'' = ''23001''
   \<and> extractCode_spec ''http://stko-kwg.geog.ucsb.edu/lod/resource/administrativeRegion.USA.23001\<newline>'' = ''unknown''"
  by code_simp

section \<open>How the driver steps\<close>

text \<open>
  The loop body has five ways to end; each is an equation.  The facts about the loop and
  the script follow from them by induction on the list of counties.
\<close>

lemma emit_simps [simp]:
  "trace (emit e w) = trace w @ [e]" "files (emit e w) = files w"
  "dirs (emit e w) = dirs w" "posts (emit e w) = posts w"
  by (simp_all add: emit_def)

lemma sleep_simps [simp]:
  "trace (sleep ms w) = trace w @ [Slept ms]" "files (sleep ms w) = files w"
  "dirs (sleep ms w) = dirs w" "posts (sleep ms w) = posts w"
  by (simp_all add: sleep_def)

lemma after_post_simps [simp]:
  "trace (after_post n i c E w) = trace w @ [Printed (Exporting i n (snd c) (fst c) (out_name (snd c) (extract_fips_from_iri (fst c)))), Post HEADERS_TTL (construct_for_county (fst c))]"
  "files (after_post n i c E w) = files w" "dirs (after_post n i c E w) = dirs w"
  "posts (after_post n i c E w) = Suc (posts w)"
  by (simp_all add: after_post_def)

lemma run_construct_eq:
  "run_construct E (construct_for_county iri) w =
     (construct_reply E (posts w) iri,
      emit (Post HEADERS_TTL (construct_for_county iri)) (w\<lparr>posts := Suc (posts w)\<rparr>))"
  by (simp add: run_construct_def requests_post_def construct_reply_def split: sum.splits)

lemma export_county_http_error:
  assumes "construct_reply E (posts w) (fst c) = Inl (HTTPError st body)"
  shows "export_county E n i c w =
    (Inr (), emit (Printed (ErrorBody (take 1000 body))) (emit (Printed (ErrorHTTP st)) (after_post n i c E w)))"
  using assms
  by (cases c) (simp add: export_county_def Let_def run_construct_eq after_post_def)

lemma export_county_other_error:
  assumes "construct_reply E (posts w) (fst c) = Inl e" "\<forall>st body. e \<noteq> HTTPError st body"
  shows "export_county E n i c w = (Inr (), emit (Printed (ErrorOther e)) (after_post n i c E w))"
  using assms
  by (cases c; cases e) (simp_all add: export_county_def Let_def run_construct_eq after_post_def)

lemma export_county_html:
  assumes "construct_reply E (posts w) (fst c) = Inr t" "looks_like_html t"
  shows "export_county E n i c w = (Inr (), emit (Printed ErrorLooksLikeHtml) (after_post n i c E w))"
  using assms
  by (cases c) (simp add: export_county_def Let_def run_construct_eq after_post_def)

lemma export_county_write_fails:
  assumes "construct_reply E (posts w) (fst c) = Inr t" "\<not> looks_like_html t"
    "write_error E (out_path_of E c) = Some e"
  shows "export_county E n i c w = (Inl e, after_post n i c E w)"
  using assms
  by (cases c) (simp add: export_county_def Let_def run_construct_eq after_post_def write_text_def out_path_of_def)

lemma export_county_saved:
  assumes "construct_reply E (posts w) (fst c) = Inr t" "\<not> looks_like_html t"
    "write_error E (out_path_of E c) = None"
  shows "export_county E n i c w =
    (Inr (), sleep 300 (emit (Printed (SavedKB (out_path_of E c)))
       (emit (Wrote (out_path_of E c) t)
          ((after_post n i c E w)\<lparr>files := (files w)(out_path_of E c \<mapsto> t)\<rparr>))))"
  using assms
  by (cases c) (simp add: export_county_def Let_def run_construct_eq after_post_def write_text_def out_path_of_def)

lemma export_county_cases [case_names http_error other_error html write_fails saved]:
  obtains
    (http_error) st body where "construct_reply E (posts w) (fst c) = Inl (HTTPError st body)"
      "export_county E n i c w =
        (Inr (), emit (Printed (ErrorBody (take 1000 body))) (emit (Printed (ErrorHTTP st)) (after_post n i c E w)))"
  | (other_error) e where "construct_reply E (posts w) (fst c) = Inl e"
      "export_county E n i c w = (Inr (), emit (Printed (ErrorOther e)) (after_post n i c E w))"
  | (html) t where "construct_reply E (posts w) (fst c) = Inr t" "looks_like_html t"
      "export_county E n i c w = (Inr (), emit (Printed ErrorLooksLikeHtml) (after_post n i c E w))"
  | (write_fails) t e where "construct_reply E (posts w) (fst c) = Inr t" "\<not> looks_like_html t"
      "write_error E (out_path_of E c) = Some e"
      "export_county E n i c w = (Inl e, after_post n i c E w)"
  | (saved) t where "construct_reply E (posts w) (fst c) = Inr t" "\<not> looks_like_html t"
      "write_error E (out_path_of E c) = None"
      "export_county E n i c w =
        (Inr (), sleep 300 (emit (Printed (SavedKB (out_path_of E c)))
           (emit (Wrote (out_path_of E c) t)
              ((after_post n i c E w)\<lparr>files := (files w)(out_path_of E c \<mapsto> t)\<rparr>))))"
proof (cases "construct_reply E (posts w) (fst c)")
  case (Inl e)
  show ?thesis
  proof (cases "\<exists>st body. e = HTTPError st body")
    case True
    then obtain st body where "e = HTTPError st body" by blast
    with Inl http_error export_county_http_error show ?thesis by blast
  next
    case False
    with Inl other_error export_county_other_error show ?thesis by blast
  qed
next
  case (Inr t)
  show ?thesis
  proof (cases "looks_like_html t")
    case True
    with Inr html export_county_html show ?thesis by blast
  next
    case False
    show ?thesis
    proof (cases "write_error E (out_path_of E c)")
      case None
      with Inr False saved export_county_saved show ?thesis by blast
    next
      case (Some e)
      with Inr False write_fails export_county_write_fails show ?thesis by blast
    qed
  qed
qed

lemma export_county_posts [simp]: "posts (snd (export_county E n i c w)) = Suc (posts w)"
  by (cases rule: export_county_cases[of E w c n i]) simp_all

lemma export_county_dirs [simp]: "dirs (snd (export_county E n i c w)) = dirs w"
  by (cases rule: export_county_cases[of E w c n i]) simp_all

lemma export_county_trace:
  "\<exists>evs. trace (snd (export_county E n i c w)) =
      trace w @ Printed (Exporting i n (snd c) (fst c) (out_name (snd c) (extract_fips_from_iri (fst c))))
        # Post HEADERS_TTL (construct_for_county (fst c)) # evs
     \<and> filter is_post evs = []
     \<and> length (filter is_pause evs) = length (filter is_wrote evs)
     \<and> (\<forall>p t. Wrote p t \<in> set evs \<longrightarrow> p = out_path_of E c \<and> \<not> looks_like_html t
            \<and> construct_reply E (posts w) (fst c) = Inr t)"
  by (cases rule: export_county_cases[of E w c n i]) auto

lemma export_county_files:
  "files (snd (export_county E n i c w)) p \<noteq> files w p \<Longrightarrow> p = out_path_of E c"
  by (cases rule: export_county_cases[of E w c n i]) (auto split: if_splits)

lemma new_events_append [simp]: "trace w' = trace w @ evs \<Longrightarrow> new_events w w' = evs"
  by (simp add: new_events_def)

lemma export_loop_Cons:
  "export_loop E n i (c # cs) w =
     (if fst (export_county E n i c w) = Inr ()
      then export_loop E n (Suc i) cs (snd (export_county E n i c w))
      else export_county E n i c w)"
  by (cases "export_county E n i c w"; cases "fst (export_county E n i c w)") (auto simp: export_loop.simps(2))

declare export_loop.simps(2) [simp del]

lemma export_county_abort:
  "fst (export_county E n i c w) \<noteq> Inr () \<Longrightarrow>
     \<exists>e. fst (export_county E n i c w) = Inl e \<and> write_error E (out_path_of E c) = Some e"
  by (cases rule: export_county_cases[of E w c n i]) auto

lemma export_county_ok:
  "write_error E (out_path_of E c) = None \<Longrightarrow> fst (export_county E n i c w) = Inr ()"
  by (cases rule: export_county_cases[of E w c n i]) auto

lemma export_loop_dirs [simp]: "dirs (snd (export_loop E n i cs w)) = dirs w"
  by (induction cs arbitrary: w i) (auto simp: export_loop_Cons)

lemma export_loop_posts:
  "fst (export_loop E n i cs w) = Inr () \<Longrightarrow> posts (snd (export_loop E n i cs w)) = posts w + length cs"
  by (induction cs arbitrary: w i) (auto simp: export_loop_Cons split: if_splits)

lemma export_loop_completes:
  "\<forall>c\<in>set cs. write_error E (out_path_of E c) = None \<Longrightarrow> fst (export_loop E n i cs w) = Inr ()"
  by (induction cs arbitrary: w i) (auto simp: export_loop_Cons export_county_ok)

lemma export_loop_abort:
  "fst (export_loop E n i cs w) \<noteq> Inr () \<Longrightarrow>
     \<exists>e. fst (export_loop E n i cs w) = Inl e \<and> (\<exists>c\<in>set cs. write_error E (out_path_of E c) = Some e)"
proof (induction cs arbitrary: w i)
  case Nil
  then show ?case by simp
next
  case (Cons c cs)
  show ?case
  proof (cases "fst (export_county E n i c w) = Inr ()")
    case True
    with Cons.prems have "fst (export_loop E n (Suc i) cs (snd (export_county E n i c w))) \<noteq> Inr ()"
      by (simp add: export_loop_Cons)
    from Cons.IH[OF this] True show ?thesis by (auto simp: export_loop_Cons)
  next
    case False
    from export_county_abort[OF this] False show ?thesis by (auto simp: export_loop_Cons)
  qed
qed

lemma export_loop_files:
  "files (snd (export_loop E n i cs w)) p \<noteq> files w p \<Longrightarrow> \<exists>c\<in>set cs. p = out_path_of E c"
proof (induction cs arbitrary: w i)
  case Nil
  then show ?case by simp
next
  case (Cons c cs)
  show ?case
  proof (cases "fst (export_county E n i c w) = Inr ()")
    case True
    show ?thesis
    proof (cases "files (snd (export_county E n i c w)) p = files w p")
      case same: True
      with Cons.prems True
      have "files (snd (export_loop E n (Suc i) cs (snd (export_county E n i c w)))) p
              \<noteq> files (snd (export_county E n i c w)) p"
        by (simp add: export_loop_Cons)
      from Cons.IH[OF this] show ?thesis by auto
    next
      case False
      from export_county_files[OF this] show ?thesis by simp
    qed
  next
    case False
    with Cons.prems have "files (snd (export_county E n i c w)) p \<noteq> files w p"
      by (simp add: export_loop_Cons)
    from export_county_files[OF this] show ?thesis by simp
  qed
qed

lemma export_loop_trace:
  "\<exists>evs. trace (snd (export_loop E n i cs w)) = trace w @ evs
     \<and> length (filter is_pause evs) = length (filter is_wrote evs)
     \<and> (\<forall>p t. Wrote p t \<in> set evs \<longrightarrow> (\<exists>c\<in>set cs. p = out_path_of E c) \<and> \<not> looks_like_html t)
     \<and> (\<forall>a q. Post a q \<in> set evs \<longrightarrow> a = HEADERS_TTL \<and> (\<exists>c\<in>set cs. q = construct_for_county (fst c)))"
proof (induction cs arbitrary: w i)
  case Nil
  then show ?case by simp
next
  case (Cons c cs)
  let ?w1 = "snd (export_county E n i c w)"
  from export_county_trace[of E n i c w] obtain evs1 where
    t1: "trace ?w1 = trace w @ Printed (Exporting i n (snd c) (fst c) (out_name (snd c) (extract_fips_from_iri (fst c))))
        # Post HEADERS_TTL (construct_for_county (fst c)) # evs1"
    and np: "filter is_post evs1 = []"
    and pw: "length (filter is_pause evs1) = length (filter is_wrote evs1)"
    and wr: "\<forall>p t. Wrote p t \<in> set evs1 \<longrightarrow> p = out_path_of E c \<and> \<not> looks_like_html t"
    by blast
  have npost: "\<And>a q. Post a q \<notin> set evs1"
  proof
    fix a q assume "Post a q \<in> set evs1"
    then have "Post a q \<in> set (filter is_post evs1)" by simp
    with np show False by simp
  qed
  show ?case
  proof (cases "fst (export_county E n i c w) = Inr ()")
    case True
    from Cons.IH[of "Suc i" ?w1] obtain evs2 where
      t2: "trace (snd (export_loop E n (Suc i) cs ?w1)) = trace ?w1 @ evs2"
      and pw2: "length (filter is_pause evs2) = length (filter is_wrote evs2)"
      and wr2: "\<forall>p t. Wrote p t \<in> set evs2 \<longrightarrow> (\<exists>c\<in>set cs. p = out_path_of E c) \<and> \<not> looks_like_html t"
      and po2: "\<forall>a q. Post a q \<in> set evs2 \<longrightarrow> a = HEADERS_TTL \<and> (\<exists>c\<in>set cs. q = construct_for_county (fst c))"
      by blast
    let ?evs = "Printed (Exporting i n (snd c) (fst c) (out_name (snd c) (extract_fips_from_iri (fst c))))
        # Post HEADERS_TTL (construct_for_county (fst c)) # evs1 @ evs2"
    have "trace (snd (export_loop E n i (c # cs) w)) = trace w @ ?evs"
      using True t1 t2 by (simp add: export_loop_Cons)
    moreover have "length (filter is_pause ?evs) = length (filter is_wrote ?evs)"
      using pw pw2 by simp
    moreover have "\<forall>p t. Wrote p t \<in> set ?evs \<longrightarrow> (\<exists>c'\<in>set (c # cs). p = out_path_of E c') \<and> \<not> looks_like_html t"
      using wr wr2 by auto
    moreover have "\<forall>a q. Post a q \<in> set ?evs \<longrightarrow> a = HEADERS_TTL \<and> (\<exists>c'\<in>set (c # cs). q = construct_for_county (fst c'))"
      using npost po2 by auto
    ultimately show ?thesis by blast
  next
    case False
    let ?evs = "Printed (Exporting i n (snd c) (fst c) (out_name (snd c) (extract_fips_from_iri (fst c))))
        # Post HEADERS_TTL (construct_for_county (fst c)) # evs1"
    have "trace (snd (export_loop E n i (c # cs) w)) = trace w @ ?evs"
      using False t1 by (simp add: export_loop_Cons)
    moreover have "length (filter is_pause ?evs) = length (filter is_wrote ?evs)"
      using pw by simp
    moreover have "\<forall>p t. Wrote p t \<in> set ?evs \<longrightarrow> (\<exists>c'\<in>set (c # cs). p = out_path_of E c') \<and> \<not> looks_like_html t"
      using wr by auto
    moreover have "\<forall>a q. Post a q \<in> set ?evs \<longrightarrow> a = HEADERS_TTL \<and> (\<exists>c'\<in>set (c # cs). q = construct_for_county (fst c'))"
      using npost by auto
    ultimately show ?thesis by blast
  qed
qed

lemma export_county_attempt:
  "Post HEADERS_TTL (construct_for_county (fst c)) \<in> set (new_events w (snd (export_county E n i c w)))"
  using export_county_trace[of E n i c w] by (auto simp: new_events_def)

lemma export_county_accepted:
  assumes "construct_reply E (posts w) (fst c) = Inr t" "\<not> looks_like_html t"
    "fst (export_county E n i c w) = Inr ()"
  shows "Wrote (out_path_of E c) t \<in> set (new_events w (snd (export_county E n i c w)))"
  using assms by (cases rule: export_county_cases[of E w c n i]) (auto simp: new_events_def)

lemma export_loop_extends:
  "\<exists>evs. trace (snd (export_loop E n i cs w)) = trace w @ evs"
  using export_loop_trace[of E n i cs w] by blast

lemma export_county_extends:
  "\<exists>evs. trace (snd (export_county E n i c w)) = trace w @ evs"
  using export_county_trace[of E n i c w] by auto

lemma new_events_mono1:
  assumes "\<exists>evs. trace w1 = trace w @ evs" "\<exists>evs. trace w2 = trace w1 @ evs"
  shows "set (new_events w w1) \<subseteq> set (new_events w w2)" "set (new_events w1 w2) \<subseteq> set (new_events w w2)"
  using assms by (auto simp: new_events_def)

lemma export_loop_attempts:
  assumes "fst (export_loop E n i cs w) = Inr ()" "j < length cs"
  shows "Post HEADERS_TTL (construct_for_county (fst (cs ! j))) \<in> set (new_events w (snd (export_loop E n i cs w)))
    \<and> (\<forall>t. construct_reply E (posts w + j) (fst (cs ! j)) = Inr t \<and> \<not> looks_like_html t
          \<longrightarrow> Wrote (out_path_of E (cs ! j)) t \<in> set (new_events w (snd (export_loop E n i cs w))))"
  using assms
proof (induction cs arbitrary: w i j)
  case Nil
  then show ?case by simp
next
  case (Cons c cs)
  let ?w1 = "snd (export_county E n i c w)"
  let ?w2 = "snd (export_loop E n (Suc i) cs ?w1)"
  from Cons.prems(1) have ok1: "fst (export_county E n i c w) = Inr ()"
    and ok2: "fst (export_loop E n (Suc i) cs ?w1) = Inr ()"
    and w2: "snd (export_loop E n i (c # cs) w) = ?w2"
    by (auto simp: export_loop_Cons split: if_splits)
  note m = new_events_mono1[OF export_county_extends[of E n i c w] export_loop_extends[of E n "Suc i" cs ?w1]]
  show ?case
  proof (cases j)
    case 0
    have "Post HEADERS_TTL (construct_for_county (fst c)) \<in> set (new_events w ?w2)"
      using export_county_attempt[of c w E n i] m(1) by blast
    moreover have "\<forall>t. construct_reply E (posts w) (fst c) = Inr t \<and> \<not> looks_like_html t
          \<longrightarrow> Wrote (out_path_of E c) t \<in> set (new_events w ?w2)"
      using export_county_accepted[OF _ _ ok1] m(1) by blast
    ultimately show ?thesis using 0 w2 by simp
  next
    case (Suc k)
    with Cons.prems(2) have k: "k < length cs" by simp
    from Cons.IH[OF ok2 k] m(2) show ?thesis using Suc w2 by auto
  qed
qed

lemma get_maine_counties_eq:
  "get_maine_counties E w =
     (counties_reply E (posts w), emit (Post HEADERS_JSON select_query) (w\<lparr>posts := Suc (posts w)\<rparr>))"
  by (simp add: get_maine_counties_def run_select_def requests_post_def counties_reply_def
      split: sum.splits)

lemma mkdir_p_ok:
  "mkdir_error E = None \<Longrightarrow>
     mkdir_p E p w = (Inr (), emit (MkDir p) (w\<lparr>dirs := dirs w \<union> set (ancestors p)\<rparr>))"
  by (simp add: mkdir_p_def)

lemma mkdir_p_fails:
  "mkdir_error E = Some e \<Longrightarrow> mkdir_p E p w = (Inl e, emit (MkDir p) w)"
  by (simp add: mkdir_p_def)

lemma script_mkdir_fails:
  "mkdir_error E = Some e \<Longrightarrow> script E w = (Uncaught e, emit (MkDir (OUT_DIR E)) w)"
  by (simp add: script_def mkdir_p_fails)

lemma script_sweep_enum_fails:
  assumes "length (argv E) \<noteq> 2" "mkdir_error E = None" "counties_reply E (posts w) = Inl e"
  shows "script E w = (Uncaught e, emit (Post HEADERS_JSON select_query)
         ((emit (Printed FetchingCounties)
            (emit (Printed (OutputDirectory (OUT_DIR E)))
              (emit (MkDir (OUT_DIR E)) (w\<lparr>dirs := dirs w \<union> set (ancestors (OUT_DIR E))\<rparr>))))
           \<lparr>posts := Suc (posts w)\<rparr>))"
  using assms by (simp add: script_def mkdir_p_ok main_def Let_def get_maine_counties_eq)

lemma script_sweep:
  assumes "length (argv E) \<noteq> 2" "mkdir_error E = None" "counties_reply E (posts w) = Inr cs"
  shows "script E w =
     (case export_loop E (length cs) 1 cs (sweep_start E (length cs) w) of
        (Inl e, w5) \<Rightarrow> (Uncaught e, w5)
      | (Inr u, w5) \<Rightarrow> (Finished, emit (Printed Done) w5))"
  using assms
  by (simp add: script_def mkdir_p_ok main_def Let_def get_maine_counties_eq sweep_start_def
      split: prod.splits sum.splits)

lemma script_single_enum_fails:
  assumes "length (argv E) = 2" "mkdir_error E = None" "counties_reply E (posts w) = Inl e"
  shows "script E w = (Uncaught e, single_start E w)"
  using assms
  by (simp add: script_def mkdir_p_ok single_county_def Let_def get_maine_counties_eq single_start_def)

lemma script_single_no_match:
  assumes "length (argv E) = 2" "mkdir_error E = None" "counties_reply E (posts w) = Inr cs"
    "matching (strip (argv E ! 1)) cs = []"
  shows "script E w = (SysExit 1, emit (Printed (NoCountyFound (strip (argv E ! 1)))) (single_start E w))"
  using assms
  by (simp add: script_def mkdir_p_ok single_county_def Let_def get_maine_counties_eq single_start_def)

lemma script_single_match:
  assumes "length (argv E) = 2" "mkdir_error E = None" "counties_reply E (posts w) = Inr cs"
    "matching (strip (argv E ! 1)) cs = (iri, label) # rest"
  shows "script E w =
     (let w2 = emit (MkDir (OUT_DIR E)) (single_start E w);
          w3 = emit (Post HEADERS_TTL (construct_for_county iri)) (w2\<lparr>posts := Suc (Suc (posts w))\<rparr>);
          out_path = OUT_DIR E @ [out_name label (strip (argv E ! 1))]
      in case construct_reply E (Suc (posts w)) iri of
           Inl e \<Rightarrow> (Uncaught e, w3)
         | Inr t \<Rightarrow>
             (case write_error E out_path of
                Some e \<Rightarrow> (Uncaught e, w3)
              | None \<Rightarrow> (Finished, emit (Printed (Saved out_path))
                           (emit (Wrote out_path t) (w3\<lparr>files := (files w)(out_path \<mapsto> t)\<rparr>)))))"
  using assms
  by (simp add: script_def mkdir_p_ok single_county_def Let_def get_maine_counties_eq single_start_def
      run_construct_eq write_text_def insert_absorb
      split: sum.splits option.splits)

subsection \<open>The example runs\<close>

lemma headers_distinct [simp]: "HEADERS_TTL \<noteq> HEADERS_JSON" "HEADERS_JSON \<noteq> HEADERS_TTL"
  by (simp_all add: HEADERS_TTL_def HEADERS_JSON_def)

lemma construct_for_county_inj [simp]:
  "(construct_for_county a = construct_for_county b) = (a = b)"
  by (simp add: construct_for_county_def)

lemma iris_distinct [simp]: "iri_23001 \<noteq> iri_23003" "iri_23003 \<noteq> iri_23001"
  by (simp_all add: iri_23001_def iri_23003_def)

lemma example_env_simps [simp]:
  "home (example_env args bs ttl wr) = [''home'', ''user'']"
  "argv (example_env args bs ttl wr) = args"
  "mkdir_error (example_env args bs ttl wr) = None"
  "write_error (example_env args bs ttl wr) = wr"
  by (simp_all add: example_env_def)

lemma empty_world_simps [simp]:
  "posts empty_world = 0" "trace empty_world = []" "files empty_world = Map.empty" "dirs empty_world = {}"
  by (simp_all add: empty_world_def)

lemma collect_two_counties:
  "collect_counties two_counties =
     Inr [(iri_23001, ''Androscoggin County, Maine''), (iri_23003, ''Aroostook County, Maine'')]"
  by (simp add: two_counties_def county_binding_def binding_pair_def getitem_def)

lemma example_counties_reply:
  "counties_reply (example_env args bs ttl wr) k = collect_counties bs"
  by (simp add: counties_reply_def example_env_def select_response_def raise_for_status_def getitem_def)

lemma example_construct_reply:
  "construct_reply (example_env args bs ttl wr) k iri =
     (case ttl k of Inl e \<Rightarrow> Inl e
      | Inr resp \<Rightarrow> (case raise_for_status resp of Inl e \<Rightarrow> Inl e | Inr u \<Rightarrow> Inr (resp_text resp)))"
  by (simp add: construct_reply_def example_env_def)

lemma ttl_response_status:
  "raise_for_status (ttl_response st body) =
     (if 400 \<le> st \<and> st < 600 then Inl (HTTPError st body) else Inr ())"
  by (simp add: raise_for_status_def ttl_response_def)

lemma ttl_response_text [simp]: "resp_text (ttl_response st body) = body"
  by (simp add: ttl_response_def)

lemma fips_23001: "extract_fips_from_iri iri_23001 = ''23001''"
  unfolding iri_23001_def by code_simp

lemma fips_23003: "extract_fips_from_iri iri_23003 = ''23003''"
  unfolding iri_23003_def by code_simp

lemma name_androscoggin:
  "out_name ''Androscoggin County, Maine'' ''23001'' = ''cropland_androscoggin_county_maine_23001.ttl''"
  by code_simp

lemma name_aroostook:
  "out_name ''Aroostook County, Maine'' ''23003'' = ''cropland_aroostook_county_maine_23003.ttl''"
  by code_simp

lemma html_page_looks_like_html: "looks_like_html html_page"
  unfolding html_page_def by code_simp

lemma turtle_doc_accepted: "\<not> looks_like_html turtle_doc"
  unfolding turtle_doc_def by code_simp

section \<open>Pacing of the sweep\<close>

text \<open>
  Claim C4, as amended.  In a full sweep the pause of 0.3 seconds is executed exactly once
  after an entity whose document was written to its file, as the last step before the next
  entity, and not at all after an entity whose extraction raised (transport failure or any
  other exception), whose response looked like an error page, or whose file write raised:
  each of the error branches leaves the loop body through \<^verbatim>\<open>continue\<close>, before the pause.
  Over a whole sweep there are as many pauses as files written.
\<close>

theorem pause_only_after_saved_file:
  "filter is_pause (new_events w (snd (export_county E n i c w))) =
     (case construct_reply E (posts w) (fst c) of
        Inl e \<Rightarrow> []
      | Inr t \<Rightarrow>
          if looks_like_html t then []
          else (case write_error E (out_path_of E c) of Some e \<Rightarrow> [] | None \<Rightarrow> [Slept 300]))
   \<and> (filter is_pause (new_events w (snd (export_county E n i c w))) \<noteq> []
        \<longrightarrow> last (trace (snd (export_county E n i c w))) = Slept 300)
   \<and> length (filter is_pause (new_events w (snd (export_loop E n i cs w))))
       = length (filter is_wrote (new_events w (snd (export_loop E n i cs w))))"
proof -
  have a: "filter is_pause (new_events w (snd (export_county E n i c w))) =
     (case construct_reply E (posts w) (fst c) of
        Inl e \<Rightarrow> []
      | Inr t \<Rightarrow>
          if looks_like_html t then []
          else (case write_error E (out_path_of E c) of Some e \<Rightarrow> [] | None \<Rightarrow> [Slept 300]))"
    by (cases rule: export_county_cases[of E w c n i]) (simp_all add: new_events_def)
  have b: "filter is_pause (new_events w (snd (export_county E n i c w))) \<noteq> []
        \<longrightarrow> last (trace (snd (export_county E n i c w))) = Slept 300"
    by (cases rule: export_county_cases[of E w c n i]) (simp_all add: new_events_def)
  from export_loop_trace[of E n i cs w] obtain evs where
    "trace (snd (export_loop E n i cs w)) = trace w @ evs"
    "length (filter is_pause evs) = length (filter is_wrote evs)" by blast
  then have c: "length (filter is_pause (new_events w (snd (export_loop E n i cs w))))
       = length (filter is_wrote (new_events w (snd (export_loop E n i cs w))))"
    by simp
  from a b c show ?thesis by blast
qed

lemma reply_all_500: "construct_reply env_all_500 k iri = Inl (HTTPError 500 ''Internal Server Error'')"
  by (simp add: env_all_500_def example_construct_reply ttl_response_status)

text \<open>
  The claim as first stated, a pause on every branch, fails in a sweep over two counties
  to which the endpoint answers 500 both times: both are attempted, the sweep runs to its
  end, and the trace holds no pause.
\<close>

theorem no_pause_after_failed_entity:
  "fst (script env_all_500 empty_world) = Finished
   \<and> Post HEADERS_TTL (construct_for_county iri_23001) \<in> set (trace (snd (script env_all_500 empty_world)))
   \<and> Post HEADERS_TTL (construct_for_county iri_23003) \<in> set (trace (snd (script env_all_500 empty_world)))
   \<and> filter is_pause (trace (snd (script env_all_500 empty_world))) = []"
proof -
  let ?cs = "[(iri_23001, ''Androscoggin County, Maine''), (iri_23003, ''Aroostook County, Maine'')]"
  have a: "length (argv env_all_500) \<noteq> 2" and m: "mkdir_error env_all_500 = None"
    by (simp_all add: env_all_500_def)
  have r: "counties_reply env_all_500 (posts empty_world) = Inr ?cs"
    by (simp add: env_all_500_def example_counties_reply collect_two_counties)
  show ?thesis
    unfolding script_sweep[OF a m r]
    by (simp add: export_loop_Cons export_county_http_error reply_all_500 sweep_start_def)
qed

text \<open>
  An instance of the saving branch: the first county of a sweep is answered with a Turtle
  document and written; the body ends with the one pause.
\<close>

theorem pause_only_after_saved_file_witness:
  "filter is_pause (new_events empty_world
      (snd (export_county env_first_500 2 1 (iri_23001, ''Androscoggin County, Maine'') empty_world))) = [Slept 300]
   \<and> last (trace (snd (export_county env_first_500 2 1 (iri_23001, ''Androscoggin County, Maine'') empty_world))) = Slept 300"
  using pause_only_after_saved_file[of empty_world env_first_500 2 1 "(iri_23001, ''Androscoggin County, Maine'')" "[]"]
  by (simp add: env_first_500_def example_construct_reply ttl_response_status turtle_doc_accepted)

section \<open>Isolation of per-entity failures\<close>

lemma sweep_start_simps [simp]:
  "posts (sweep_start E k w) = Suc (posts w)" "files (sweep_start E k w) = files w"
  "dirs (sweep_start E k w) = dirs w \<union> set (ancestors (OUT_DIR E))"
  "trace (sweep_start E k w) = trace w @ [MkDir (OUT_DIR E), Printed (OutputDirectory (OUT_DIR E)),
      Printed FetchingCounties, Post HEADERS_JSON select_query, Printed (FoundCounties k)]"
  by (simp_all add: sweep_start_def)

lemma script_sweep_uncaught:
  assumes "length (argv E) \<noteq> 2" "mkdir_error E = None" "fst (script E w) = Uncaught e"
  shows "counties_reply E (posts w) = Inl e
         \<or> (\<exists>cs. counties_reply E (posts w) = Inr cs \<and> (\<exists>c\<in>set cs. write_error E (out_path_of E c) = Some e))"
proof (cases "counties_reply E (posts w)")
  case (Inl e')
  with assms show ?thesis by (simp add: script_sweep_enum_fails)
next
  case (Inr cs)
  let ?l = "export_loop E (length cs) 1 cs (sweep_start E (length cs) w)"
  have "fst ?l \<noteq> Inr ()"
    using assms(3) unfolding script_sweep[OF assms(1,2) Inr]
    by (cases ?l; cases "fst ?l") auto
  from export_loop_abort[OF this] obtain e' where
    e': "fst ?l = Inl e'" "\<exists>c\<in>set cs. write_error E (out_path_of E c) = Some e'" by blast
  then have "fst (script E w) = Uncaught e'"
    unfolding script_sweep[OF assms(1,2) Inr] by (cases ?l) auto
  with assms(3) e' Inr show ?thesis by simp
qed

text \<open>
  Claim C2, as amended.  In a full sweep a failure of the extraction call for an entity
  (an HTTP error or any other exception) is caught: no file is written for that entity and
  the loop goes on with the entities after it.  When no file write raises, the loop runs
  over the whole list: every entity is attempted, and every entity whose response is
  accepted has its document written to its file.  The isolation covers the extraction call
  only: the loop stops early only through a file write that raises, and a sweep ends in an
  uncaught exception only through the enumeration call or such a write.
\<close>

theorem sweep_isolates_extraction_failures:
  "(\<forall>e. construct_reply E (posts w) (fst c) = Inl e \<longrightarrow>
       export_loop E n i (c # cs) w = export_loop E n (Suc i) cs (snd (export_county E n i c w))
       \<and> files (snd (export_county E n i c w)) = files w
       \<and> filter is_wrote (new_events w (snd (export_county E n i c w))) = [])
   \<and> ((\<forall>c\<in>set cs. write_error E (out_path_of E c) = None) \<longrightarrow>
        fst (export_loop E n i cs w) = Inr ()
        \<and> (\<forall>j<length cs.
              Post HEADERS_TTL (construct_for_county (fst (cs ! j)))
                \<in> set (new_events w (snd (export_loop E n i cs w)))
              \<and> (\<forall>t. construct_reply E (posts w + j) (fst (cs ! j)) = Inr t \<and> \<not> looks_like_html t \<longrightarrow>
                    Wrote (out_path_of E (cs ! j)) t \<in> set (new_events w (snd (export_loop E n i cs w))))))
   \<and> (\<forall>e. fst (export_loop E n i cs w) = Inl e \<longrightarrow>
          (\<exists>c\<in>set cs. write_error E (out_path_of E c) = Some e))
   \<and> (\<forall>e. length (argv E) \<noteq> 2 \<and> mkdir_error E = None \<and> fst (script E w) = Uncaught e \<longrightarrow>
          counties_reply E (posts w) = Inl e
          \<or> (\<exists>cs. counties_reply E (posts w) = Inr cs \<and> (\<exists>c\<in>set cs. write_error E (out_path_of E c) = Some e)))"
proof -
  have a: "\<forall>e. construct_reply E (posts w) (fst c) = Inl e \<longrightarrow>
       export_loop E n i (c # cs) w = export_loop E n (Suc i) cs (snd (export_county E n i c w))
       \<and> files (snd (export_county E n i c w)) = files w
       \<and> filter is_wrote (new_events w (snd (export_county E n i c w))) = []"
    by (cases rule: export_county_cases[of E w c n i]) (simp_all add: export_loop_Cons new_events_def)
  have b: "(\<forall>c\<in>set cs. write_error E (out_path_of E c) = None) \<longrightarrow>
        fst (export_loop E n i cs w) = Inr ()
        \<and> (\<forall>j<length cs.
              Post HEADERS_TTL (construct_for_county (fst (cs ! j)))
                \<in> set (new_events w (snd (export_loop E n i cs w)))
              \<and> (\<forall>t. construct_reply E (posts w + j) (fst (cs ! j)) = Inr t \<and> \<not> looks_like_html t \<longrightarrow>
                    Wrote (out_path_of E (cs ! j)) t \<in> set (new_events w (snd (export_loop E n i cs w)))))"
    using export_loop_completes[of cs E n i w] export_loop_attempts[of E n i cs w] by blast
  have c: "\<forall>e. fst (export_loop E n i cs w) = Inl e \<longrightarrow>
          (\<exists>c\<in>set cs. write_error E (out_path_of E c) = Some e)"
    using export_loop_abort[of E n i cs w] by auto
  have d: "\<forall>e. length (argv E) \<noteq> 2 \<and> mkdir_error E = None \<and> fst (script E w) = Uncaught e \<longrightarrow>
          counties_reply E (posts w) = Inl e
          \<or> (\<exists>cs. counties_reply E (posts w) = Inr cs \<and> (\<exists>c\<in>set cs. write_error E (out_path_of E c) = Some e))"
    using script_sweep_uncaught[of E w] by blast
  from a b c d show ?thesis by blast
qed

text \<open>
  An instance: the endpoint answers 500 for the first county and a Turtle document for
  the second.  The loop completes and the second county's file is written.
\<close>

theorem sweep_isolates_extraction_failures_witness:
  "construct_reply env_first_500 1 iri_23001 = Inl (HTTPError 500 ''Internal Server Error'')
   \<and> fst (export_loop env_first_500 2 1
        [(iri_23001, ''Androscoggin County, Maine''), (iri_23003, ''Aroostook County, Maine'')]
        (sweep_start env_first_500 2 empty_world)) = Inr ()
   \<and> Wrote [''home'', ''user'', ''Desktop'', ''kwg_maine_cropland_by_county'',
             ''cropland_aroostook_county_maine_23003.ttl''] turtle_doc
       \<in> set (new_events (sweep_start env_first_500 2 empty_world)
           (snd (export_loop env_first_500 2 1
             [(iri_23001, ''Androscoggin County, Maine''), (iri_23003, ''Aroostook County, Maine'')]
             (sweep_start env_first_500 2 empty_world))))"
proof -
  let ?cs = "[(iri_23001, ''Androscoggin County, Maine''), (iri_23003, ''Aroostook County, Maine'')]"
  let ?w = "sweep_start env_first_500 2 empty_world"
  have r1: "construct_reply env_first_500 1 iri_23001 = Inl (HTTPError 500 ''Internal Server Error'')"
    by (simp add: env_first_500_def example_construct_reply ttl_response_status)
  have r2: "k \<noteq> 1 \<Longrightarrow> construct_reply env_first_500 k iri = Inr turtle_doc" for k iri
    by (simp add: env_first_500_def example_construct_reply ttl_response_status)
  have wr: "\<forall>c\<in>set ?cs. write_error env_first_500 (out_path_of env_first_500 c) = None"
    by (simp add: env_first_500_def)
  have path: "out_path_of env_first_500 (?cs ! 1) =
      [''home'', ''user'', ''Desktop'', ''kwg_maine_cropland_by_county'', ''cropland_aroostook_county_maine_23003.ttl'']"
    by (simp add: out_path_of_def OUT_DIR_def env_first_500_def fips_23003 name_aroostook)
  from sweep_isolates_extraction_failures[of env_first_500 ?w "hd ?cs" 2 1 ?cs] wr
  have ok: "fst (export_loop env_first_500 2 1 ?cs ?w) = Inr ()"
    and all: "\<forall>j<length ?cs. (\<forall>t. construct_reply env_first_500 (posts ?w + j) (fst (?cs ! j)) = Inr t \<and> \<not> looks_like_html t \<longrightarrow>
                    Wrote (out_path_of env_first_500 (?cs ! j)) t \<in> set (new_events ?w (snd (export_loop env_first_500 2 1 ?cs ?w))))"
    by blast+
  have "Wrote (out_path_of env_first_500 (?cs ! 1)) turtle_doc
      \<in> set (new_events ?w (snd (export_loop env_first_500 2 1 ?cs ?w)))"
    by (rule all[rule_format, of 1 turtle_doc]) (simp_all add: r2 turtle_doc_accepted)
  then have "Wrote [''home'', ''user'', ''Desktop'', ''kwg_maine_cropland_by_county'', ''cropland_aroostook_county_maine_23003.ttl''] turtle_doc
      \<in> set (new_events ?w (snd (export_loop env_first_500 2 1 ?cs ?w)))"
    unfolding path .
  with r1 ok show ?thesis by blast
qed

text \<open>
  The claim as first stated lets only the enumeration call abort the run.  Here the
  enumeration succeeds and both responses are Turtle, but the file system refuses the
  write: the first write raises outside the \<^verbatim>\<open>try\<close> block, the run ends in that exception,
  and the second county is never attempted.
\<close>

theorem sweep_aborts_on_write_error:
  "counties_reply env_write_denied 0 =
      Inr [(iri_23001, ''Androscoggin County, Maine''), (iri_23003, ''Aroostook County, Maine'')]
   \<and> fst (script env_write_denied empty_world) = Uncaught (OSError ''Permission denied'')
   \<and> Post HEADERS_TTL (construct_for_county iri_23003) \<notin> set (trace (snd (script env_write_denied empty_world)))"
proof -
  let ?cs = "[(iri_23001, ''Androscoggin County, Maine''), (iri_23003, ''Aroostook County, Maine'')]"
  have a: "length (argv env_write_denied) \<noteq> 2" and m: "mkdir_error env_write_denied = None"
    by (simp_all add: env_write_denied_def)
  have r: "counties_reply env_write_denied (posts empty_world) = Inr ?cs"
    by (simp add: env_write_denied_def example_counties_reply collect_two_counties)
  have c: "construct_reply env_write_denied k iri = Inr turtle_doc" for k iri
    by (simp add: env_write_denied_def example_construct_reply ttl_response_status)
  have w: "write_error env_write_denied p = Some (OSError ''Permission denied'')" for p
    by (simp add: env_write_denied_def)
  have s: "script env_write_denied empty_world =
      (Uncaught (OSError ''Permission denied''),
       after_post 2 1 (iri_23001, ''Androscoggin County, Maine'') env_write_denied (sweep_start env_write_denied 2 empty_world))"
    unfolding script_sweep[OF a m r]
    by (simp add: export_loop_Cons export_county_write_fails[OF c turtle_doc_accepted w] numeral_2_eq_2)
  show ?thesis
    using r unfolding s by simp
qed

section \<open>Names of the output files\<close>

lemma extract_fips_suffix:
  "d \<noteq> [] \<Longrightarrow> list_all is_digit d \<Longrightarrow> extract_fips_from_iri (p @ region_literal @ d) = d"
  using re_search_SomeI[of d "[]" p] by (simp add: extract_fips_from_iri_def)

lemma fips_any_prefix_23001: "extract_fips_from_iri (p @ ''administrativeRegion.USA.23001'') = ''23001''"
proof -
  have "list_all is_digit ''23001''" by code_simp
  from extract_fips_suffix[OF _ this, of p] show ?thesis by (simp add: region_literal_def)
qed

lemma fips_any_prefix_23003: "extract_fips_from_iri (p @ ''administrativeRegion.USA.23003'') = ''23003''"
proof -
  have "list_all is_digit ''23003''" by code_simp
  from extract_fips_suffix[OF _ this, of p] show ?thesis by (simp add: region_literal_def)
qed

lemma script_sweep_events:
  assumes "length (argv E) \<noteq> 2" "mkdir_error E = None" "counties_reply E (posts w) = Inr cs"
  shows "set (new_events (sweep_start E (length cs) w)
            (snd (export_loop E (length cs) 1 cs (sweep_start E (length cs) w))))
         \<subseteq> set (new_events w (snd (script E w)))"
proof -
  let ?w0 = "sweep_start E (length cs) w"
  let ?l = "export_loop E (length cs) 1 cs ?w0"
  from export_loop_extends[of E "length cs" 1 cs ?w0] obtain evs where
    t: "trace (snd ?l) = trace ?w0 @ evs" by blast
  have "trace (snd (script E w)) = trace (snd ?l) \<or> trace (snd (script E w)) = trace (snd ?l) @ [Printed Done]"
    unfolding script_sweep[OF assms] by (cases ?l; cases "fst ?l") auto
  then show ?thesis using t by (auto simp: new_events_def)
qed

text \<open>
  Claim C7.  Every file a sweep writes is named by prefix, slug, code and extension,
  \<^verbatim>\<open>cropland_\<close> + slug of the label + \<^verbatim>\<open>_\<close> + code of the identifier + \<^verbatim>\<open>.ttl\<close>, in the output
  directory, for one of the enumerated entities.  In the scenario of the two counties, whose
  identifiers end in \<^verbatim>\<open>administrativeRegion.USA.23001\<close> and \<^verbatim>\<open>...23003\<close>, a sweep in which the
  first file write does not raise attempts both identifiers, and each response that is
  accepted is written to \<^verbatim>\<open>cropland_androscoggin_county_maine_23001.ttl\<close> and
  \<^verbatim>\<open>cropland_aroostook_county_maine_23003.ttl\<close>.
\<close>

theorem output_file_names:
  "(\<forall>p t. Wrote p t \<in> set (new_events w (snd (export_loop E n i cs w))) \<longrightarrow>
      (\<exists>c\<in>set cs. p = OUT_DIR E @ [''cropland_'' @ safe_filename (snd c) @ ''_''
                                      @ extract_fips_from_iri (fst c) @ ''.ttl'']))
   \<and> (length (argv E) \<noteq> 2 \<and> mkdir_error E = None
       \<and> counties_reply E (posts w) =
            Inr [(p1 @ ''administrativeRegion.USA.23001'', ''Androscoggin County, Maine''),
                 (p2 @ ''administrativeRegion.USA.23003'', ''Aroostook County, Maine'')]
       \<and> write_error E (OUT_DIR E @ [''cropland_androscoggin_county_maine_23001.ttl'']) = None
       \<and> write_error E (OUT_DIR E @ [''cropland_aroostook_county_maine_23003.ttl'']) = None
      \<longrightarrow>
        Post HEADERS_TTL (construct_for_county (p1 @ ''administrativeRegion.USA.23001''))
          \<in> set (new_events w (snd (script E w)))
        \<and> Post HEADERS_TTL (construct_for_county (p2 @ ''administrativeRegion.USA.23003''))
          \<in> set (new_events w (snd (script E w)))
        \<and> (\<forall>t. construct_reply E (Suc (posts w)) (p1 @ ''administrativeRegion.USA.23001'') = Inr t
                \<and> \<not> looks_like_html t \<longrightarrow>
              Wrote (OUT_DIR E @ [''cropland_androscoggin_county_maine_23001.ttl'']) t
                \<in> set (new_events w (snd (script E w))))
        \<and> (\<forall>t. construct_reply E (Suc (Suc (posts w))) (p2 @ ''administrativeRegion.USA.23003'') = Inr t
                \<and> \<not> looks_like_html t \<longrightarrow>
              Wrote (OUT_DIR E @ [''cropland_aroostook_county_maine_23003.ttl'']) t
                \<in> set (new_events w (snd (script E w)))))"
proof -
  have general: "\<forall>p t. Wrote p t \<in> set (new_events w (snd (export_loop E n i cs w))) \<longrightarrow>
      (\<exists>c\<in>set cs. p = OUT_DIR E @ [''cropland_'' @ safe_filename (snd c) @ ''_''
                                      @ extract_fips_from_iri (fst c) @ ''.ttl''])"
  proof -
    from export_loop_trace[of E n i cs w] obtain evs where
      t: "trace (snd (export_loop E n i cs w)) = trace w @ evs"
      and wr: "\<forall>p t. Wrote p t \<in> set evs \<longrightarrow> (\<exists>c\<in>set cs. p = out_path_of E c) \<and> \<not> looks_like_html t"
      by blast
    from t have "new_events w (snd (export_loop E n i cs w)) = evs" by simp
    with wr show ?thesis by (simp add: out_path_of_def out_name_def)
  qed
  have scenario: "Post HEADERS_TTL (construct_for_county (p1 @ ''administrativeRegion.USA.23001''))
          \<in> set (new_events w (snd (script E w)))
        \<and> Post HEADERS_TTL (construct_for_county (p2 @ ''administrativeRegion.USA.23003''))
          \<in> set (new_events w (snd (script E w)))
        \<and> (\<forall>t. construct_reply E (Suc (posts w)) (p1 @ ''administrativeRegion.USA.23001'') = Inr t
                \<and> \<not> looks_like_html t \<longrightarrow>
              Wrote (OUT_DIR E @ [''cropland_androscoggin_county_maine_23001.ttl'']) t
                \<in> set (new_events w (snd (script E w))))
        \<and> (\<forall>t. construct_reply E (Suc (Suc (posts w))) (p2 @ ''administrativeRegion.USA.23003'') = Inr t
                \<and> \<not> looks_like_html t \<longrightarrow>
              Wrote (OUT_DIR E @ [''cropland_aroostook_county_maine_23003.ttl'']) t
                \<in> set (new_events w (snd (script E w))))"
    if a: "length (argv E) \<noteq> 2" and m: "mkdir_error E = None"
      and r: "counties_reply E (posts w) =
            Inr [(p1 @ ''administrativeRegion.USA.23001'', ''Androscoggin County, Maine''),
                 (p2 @ ''administrativeRegion.USA.23003'', ''Aroostook County, Maine'')]"
      and w1: "write_error E (OUT_DIR E @ [''cropland_androscoggin_county_maine_23001.ttl'']) = None"
      and w2: "write_error E (OUT_DIR E @ [''cropland_aroostook_county_maine_23003.ttl'']) = None"
  proof -
    let ?c1 = "(p1 @ ''administrativeRegion.USA.23001'', ''Androscoggin County, Maine'')"
    let ?c2 = "(p2 @ ''administrativeRegion.USA.23003'', ''Aroostook County, Maine'')"
    let ?cs = "[?c1, ?c2]"
    let ?w0 = "sweep_start E (length ?cs) w"
    let ?l = "export_loop E (length ?cs) 1 ?cs ?w0"
    have o1: "out_path_of E ?c1 = OUT_DIR E @ [''cropland_androscoggin_county_maine_23001.ttl'']"
      by (simp add: out_path_of_def fips_any_prefix_23001 name_androscoggin)
    have o2: "out_path_of E ?c2 = OUT_DIR E @ [''cropland_aroostook_county_maine_23003.ttl'']"
      by (simp add: out_path_of_def fips_any_prefix_23003 name_aroostook)
    have "\<forall>c\<in>set ?cs. write_error E (out_path_of E c) = None"
      using w1 w2 o1 o2 by simp
    then have ok: "fst ?l = Inr ()" by (rule export_loop_completes)
    note att = export_loop_attempts[OF ok]
    note sub = script_sweep_events[OF a m r]
    have "0 < length ?cs" and "1 < length ?cs" by simp_all
    from att[OF \<open>0 < length ?cs\<close>] att[OF \<open>1 < length ?cs\<close>] sub o1 o2
    show ?thesis by (simp add: subset_iff)
  qed
  from general scenario show ?thesis by blast
qed

text \<open>
  An instance: the endpoint answers 500 for the first county and a Turtle document for the
  second.  Both identifiers are attempted, and the second file is written under its name.
\<close>

theorem output_file_names_witness:
  "Post HEADERS_TTL (construct_for_county iri_23001) \<in> set (new_events empty_world (snd (script env_first_500 empty_world)))
   \<and> Post HEADERS_TTL (construct_for_county iri_23003) \<in> set (new_events empty_world (snd (script env_first_500 empty_world)))
   \<and> Wrote [''home'', ''user'', ''Desktop'', ''kwg_maine_cropland_by_county'',
             ''cropland_aroostook_county_maine_23003.ttl''] turtle_doc
       \<in> set (new_events empty_world (snd (script env_first_500 empty_world)))"
proof -
  let ?p = "''http://stko-kwg.geog.ucsb.edu/lod/resource/''"
  have i1: "iri_23001 = ?p @ ''administrativeRegion.USA.23001''" by (simp add: iri_23001_def)
  have i2: "iri_23003 = ?p @ ''administrativeRegion.USA.23003''" by (simp add: iri_23003_def)
  have a: "length (argv env_first_500) \<noteq> 2" and m: "mkdir_error env_first_500 = None"
    and w: "write_error env_first_500 q = None" for q
    by (simp_all add: env_first_500_def)
  have r: "counties_reply env_first_500 (posts empty_world) =
      Inr [(?p @ ''administrativeRegion.USA.23001'', ''Androscoggin County, Maine''),
           (?p @ ''administrativeRegion.USA.23003'', ''Aroostook County, Maine'')]"
    unfolding i1[symmetric] i2[symmetric]
    by (simp add: env_first_500_def example_counties_reply collect_two_counties)
  have r2: "construct_reply env_first_500 (Suc (Suc (posts empty_world))) (?p @ ''administrativeRegion.USA.23003'') = Inr turtle_doc"
    by (simp add: env_first_500_def example_construct_reply ttl_response_status)
  have o: "OUT_DIR env_first_500 = [''home'', ''user'', ''Desktop'', ''kwg_maine_cropland_by_county'']"
    by (simp add: OUT_DIR_def env_first_500_def)
  from output_file_names[of empty_world env_first_500 0 0 "[]" ?p ?p] a m r w r2 turtle_doc_accepted
  show ?thesis unfolding i1 i2 o by simp
qed

section \<open>Single-entity mode\<close>

lemma single_start_simps [simp]:
  "posts (single_start E w) = Suc (posts w)" "files (single_start E w) = files w"
  "dirs (single_start E w) = dirs w \<union> set (ancestors (OUT_DIR E))"
  "trace (single_start E w) = trace w @ [MkDir (OUT_DIR E), Post HEADERS_JSON select_query]"
  by (simp_all add: single_start_def)

lemma matching_ConsD:
  "matching target cs = (iri, label) # rest \<Longrightarrow> extract_fips_from_iri iri = target \<and> (iri, label) \<in> set cs"
proof -
  assume "matching target cs = (iri, label) # rest"
  then have "(iri, label) \<in> set (filter (\<lambda>(i, l). extract_fips_from_iri i = target) cs)"
    by (simp add: matching_def)
  then show ?thesis by auto
qed

lemma matching_Nil_iff:
  "matching target cs = [] \<longleftrightarrow> (\<forall>c\<in>set cs. extract_fips_from_iri (fst c) \<noteq> target)"
  by (auto simp: matching_def filter_empty_conv)

lemma matching_split:
  assumes "\<forall>c\<in>set before. extract_fips_from_iri (fst c) \<noteq> target"
    and "extract_fips_from_iri iri = target"
  shows "matching target (before @ (iri, label) # after) = (iri, label) # matching target after"
proof -
  from assms(1) have "matching target before = []" by (simp add: matching_Nil_iff)
  then have "filter (\<lambda>(i, l). extract_fips_from_iri i = target) before = []"
    by (simp add: matching_def)
  with assms(2) show ?thesis by (simp add: matching_def)
qed

lemma single_example_matching:
  "matching ''23003'' [(iri_23001, ''Androscoggin County, Maine''), (iri_23003, ''Aroostook County, Maine'')]
     = [(iri_23003, ''Aroostook County, Maine'')]"
  by (simp add: matching_def fips_23001 fips_23003)

lemma single_example_no_match:
  "matching ''99999'' [(iri_23001, ''Androscoggin County, Maine''), (iri_23003, ''Aroostook County, Maine'')] = []"
  by (simp add: matching_def fips_23001 fips_23003)

lemma strip_23003: "strip ''23003'' = ''23003''"
  by code_simp

lemma strip_99999: "strip '' 99999 '' = ''99999''"
  by code_simp

lemma fips_23003_alt: "extract_fips_from_iri iri_23003_alt = ''23003''"
  unfolding iri_23003_alt_def by code_simp

lemma collect_shared_code_counties:
  "collect_counties shared_code_counties =
     Inr [(iri_23001, ''Androscoggin County, Maine''), (iri_23003, ''Aroostook County, Maine''),
          (iri_23003_alt, ''Aroostook Plantation, Maine'')]"
  by (simp add: shared_code_counties_def county_binding_def binding_pair_def getitem_def)

text \<open>
  Claim C8.  In single-entity mode, with the directory made and the counties fetched: when
  no enumerated county has the code given on the command line (stripped of surrounding
  white space), the script prints the diagnostic message as its last action and ends with
  exit status 1; no file is written and no extraction is requested.  When some county has
  the code, the first of them in enumeration order is the one used, whatever follows it in
  the list: the script does not exit with status 1, the one extraction requested is for
  that county's identifier, a file is written only under that county's name, and when the
  extraction returns and the write does not raise, the run ends normally with the document
  in that file.
\<close>

theorem single_mode_unmatched_code:
  assumes "length (argv E) = 2" "mkdir_error E = None" "counties_reply E (posts w) = Inr cs"
  shows
  "((\<forall>c\<in>set cs. extract_fips_from_iri (fst c) \<noteq> strip (argv E ! 1)) \<longrightarrow>
      fst (script E w) = SysExit 1
      \<and> last (trace (snd (script E w))) = Printed (NoCountyFound (strip (argv E ! 1)))
      \<and> files (snd (script E w)) = files w
      \<and> filter is_wrote (new_events w (snd (script E w))) = []
      \<and> filter is_post (new_events w (snd (script E w))) = [Post HEADERS_JSON select_query])
   \<and> (\<forall>before iri label after.
        cs = before @ (iri, label) # after
        \<and> (\<forall>c\<in>set before. extract_fips_from_iri (fst c) \<noteq> strip (argv E ! 1))
        \<and> extract_fips_from_iri iri = strip (argv E ! 1) \<longrightarrow>
          fst (script E w) \<noteq> SysExit 1
          \<and> filter is_post (new_events w (snd (script E w)))
              = [Post HEADERS_JSON select_query, Post HEADERS_TTL (construct_for_county iri)]
          \<and> (\<forall>p t. Wrote p t \<in> set (new_events w (snd (script E w))) \<longrightarrow>
                p = OUT_DIR E @ [out_name label (extract_fips_from_iri iri)]
                \<and> construct_reply E (Suc (posts w)) iri = Inr t)
          \<and> (\<forall>t. construct_reply E (Suc (posts w)) iri = Inr t
                \<and> write_error E (OUT_DIR E @ [out_name label (extract_fips_from_iri iri)]) = None \<longrightarrow>
                fst (script E w) = Finished
                \<and> files (snd (script E w)) (OUT_DIR E @ [out_name label (extract_fips_from_iri iri)]) = Some t))"
proof -
  have none: "fst (script E w) = SysExit 1
      \<and> last (trace (snd (script E w))) = Printed (NoCountyFound (strip (argv E ! 1)))
      \<and> files (snd (script E w)) = files w
      \<and> filter is_wrote (new_events w (snd (script E w))) = []
      \<and> filter is_post (new_events w (snd (script E w))) = [Post HEADERS_JSON select_query]"
    if "\<forall>c\<in>set cs. extract_fips_from_iri (fst c) \<noteq> strip (argv E ! 1)"
  proof -
    from that have "matching (strip (argv E ! 1)) cs = []" by (simp add: matching_Nil_iff)
    then show ?thesis
      unfolding script_single_no_match[OF assms \<open>matching (strip (argv E ! 1)) cs = []\<close>]
      by (simp add: new_events_def)
  qed
  have some: "fst (script E w) \<noteq> SysExit 1
          \<and> filter is_post (new_events w (snd (script E w)))
              = [Post HEADERS_JSON select_query, Post HEADERS_TTL (construct_for_county iri)]
          \<and> (\<forall>p t. Wrote p t \<in> set (new_events w (snd (script E w))) \<longrightarrow>
                p = OUT_DIR E @ [out_name label (extract_fips_from_iri iri)]
                \<and> construct_reply E (Suc (posts w)) iri = Inr t)
          \<and> (\<forall>t. construct_reply E (Suc (posts w)) iri = Inr t
                \<and> write_error E (OUT_DIR E @ [out_name label (extract_fips_from_iri iri)]) = None \<longrightarrow>
                fst (script E w) = Finished
                \<and> files (snd (script E w)) (OUT_DIR E @ [out_name label (extract_fips_from_iri iri)]) = Some t)"
    if split: "cs = before @ (iri, label) # after"
      and first: "\<forall>c\<in>set before. extract_fips_from_iri (fst c) \<noteq> strip (argv E ! 1)"
      and f: "extract_fips_from_iri iri = strip (argv E ! 1)"
    for before iri label after
  proof -
    have mt: "matching (strip (argv E ! 1)) cs = (iri, label) # matching (strip (argv E ! 1)) after"
      unfolding split by (rule matching_split[OF first f])
    show ?thesis
      unfolding script_single_match[OF assms mt] Let_def f
      by (simp add: new_events_def split: sum.splits option.splits)
  qed
  from none some show ?thesis by blast
qed

text \<open>
  Two instances.  The code 99999, given with spaces around it, is the code of no county:
  exit status 1, the message, no file.  The code 23003 is the code of the second and of the
  third county of a list of three: the second is used, its identifier is the one requested,
  and the document is in its file.
\<close>

theorem single_mode_unmatched_code_witness:
  "fst (script (env_single '' 99999 '' (\<lambda>k. Inr (ttl_response 200 turtle_doc)) (\<lambda>p. None)) empty_world) = SysExit 1
   \<and> last (trace (snd (script (env_single '' 99999 '' (\<lambda>k. Inr (ttl_response 200 turtle_doc)) (\<lambda>p. None)) empty_world)))
        = Printed (NoCountyFound ''99999'')
   \<and> files (snd (script (env_single '' 99999 '' (\<lambda>k. Inr (ttl_response 200 turtle_doc)) (\<lambda>p. None)) empty_world)) = Map.empty
   \<and> fst (script env_shared_code empty_world) = Finished
   \<and> filter is_post (new_events empty_world (snd (script env_shared_code empty_world)))
        = [Post HEADERS_JSON select_query, Post HEADERS_TTL (construct_for_county iri_23003)]
   \<and> files (snd (script env_shared_code empty_world))
        [''home'', ''user'', ''Desktop'', ''kwg_maine_cropland_by_county'', ''cropland_aroostook_county_maine_23003.ttl'']
        = Some turtle_doc"
proof -
  let ?E = "env_single '' 99999 '' (\<lambda>k. Inr (ttl_response 200 turtle_doc)) (\<lambda>p. None)"
  let ?cs = "[(iri_23001, ''Androscoggin County, Maine''), (iri_23003, ''Aroostook County, Maine'')]"
  have a: "length (argv ?E) = 2" and m: "mkdir_error ?E = None"
    by (simp_all add: env_single_def)
  have r: "counties_reply ?E (posts empty_world) = Inr ?cs"
    by (simp add: env_single_def example_counties_reply collect_two_counties)
  have g: "strip (argv ?E ! 1) = ''99999''"
    by (simp add: env_single_def strip_99999)
  have n: "\<forall>c\<in>set ?cs. extract_fips_from_iri (fst c) \<noteq> strip (argv ?E ! 1)"
    unfolding g by (simp add: fips_23001 fips_23003)
  from single_mode_unmatched_code[OF a m r] n
  have unmatched: "fst (script ?E empty_world) = SysExit 1
      \<and> last (trace (snd (script ?E empty_world))) = Printed (NoCountyFound ''99999'')
      \<and> files (snd (script ?E empty_world)) = Map.empty"
    unfolding g by simp
  let ?S = "env_shared_code"
  let ?before = "[(iri_23001, ''Androscoggin County, Maine'')]"
  let ?after = "[(iri_23003_alt, ''Aroostook Plantation, Maine'')]"
  have a': "length (argv ?S) = 2" and m': "mkdir_error ?S = None"
    by (simp_all add: env_shared_code_def)
  have r': "counties_reply ?S (posts empty_world) = Inr (?before @ (iri_23003, ''Aroostook County, Maine'') # ?after)"
    by (simp add: env_shared_code_def example_counties_reply collect_shared_code_counties)
  have g': "strip (argv ?S ! 1) = ''23003''"
    by (simp add: env_shared_code_def strip_23003)
  have o: "OUT_DIR ?S = [''home'', ''user'', ''Desktop'', ''kwg_maine_cropland_by_county'']"
    by (simp add: env_shared_code_def OUT_DIR_def)
  have c: "construct_reply ?S (Suc (posts empty_world)) iri_23003 = Inr turtle_doc"
    by (simp add: env_shared_code_def example_construct_reply ttl_response_status)
  have wr: "write_error ?S q = None" for q
    by (simp add: env_shared_code_def)
  have h: "?before @ (iri_23003, ''Aroostook County, Maine'') # ?after
        = ?before @ (iri_23003, ''Aroostook County, Maine'') # ?after
      \<and> (\<forall>c\<in>set ?before. extract_fips_from_iri (fst c) \<noteq> strip (argv ?S ! 1))
      \<and> extract_fips_from_iri iri_23003 = strip (argv ?S ! 1)"
    unfolding g' by (simp add: fips_23001 fips_23003)
  note inst = single_mode_unmatched_code[OF a' m' r', THEN conjunct2, rule_format, OF h]
  from inst have posts: "filter is_post (new_events empty_world (snd (script ?S empty_world)))
      = [Post HEADERS_JSON select_query, Post HEADERS_TTL (construct_for_county iri_23003)]"
    by blast
  from inst have "\<forall>t. construct_reply ?S (Suc (posts empty_world)) iri_23003 = Inr t
        \<and> write_error ?S (OUT_DIR ?S @ [out_name ''Aroostook County, Maine'' (extract_fips_from_iri iri_23003)]) = None \<longrightarrow>
        fst (script ?S empty_world) = Finished
        \<and> files (snd (script ?S empty_world))
            (OUT_DIR ?S @ [out_name ''Aroostook County, Maine'' (extract_fips_from_iri iri_23003)]) = Some t"
    by blast
  with c wr have "fst (script ?S empty_world) = Finished
        \<and> files (snd (script ?S empty_world))
            (OUT_DIR ?S @ [out_name ''Aroostook County, Maine'' (extract_fips_from_iri iri_23003)]) = Some turtle_doc"
    by blast
  then have matched: "fst (script ?S empty_world) = Finished
        \<and> files (snd (script ?S empty_world))
            [''home'', ''user'', ''Desktop'', ''kwg_maine_cropland_by_county'', ''cropland_aroostook_county_maine_23003.ttl'']
            = Some turtle_doc"
    unfolding o fips_23003 name_aroostook by simp
  from unmatched posts matched show ?thesis by blast
qed

lemma script_single_no_pause:
  assumes "length (argv E) = 2"
  shows "filter is_pause (new_events w (snd (script E w))) = []"
proof (cases "mkdir_error E")
  case (Some e)
  then show ?thesis by (simp add: script_mkdir_fails new_events_def)
next
  case None
  show ?thesis
  proof (cases "counties_reply E (posts w)")
    case (Inl e)
    then show ?thesis by (simp add: script_single_enum_fails[OF assms None] new_events_def)
  next
    case (Inr cs)
    show ?thesis
    proof (cases "matching (strip (argv E ! 1)) cs")
      case Nil
      then show ?thesis by (simp add: script_single_no_match[OF assms None Inr] new_events_def)
    next
      case (Cons c rest)
      obtain iri label where c: "c = (iri, label)" by (cases c)
      show ?thesis
        unfolding script_single_match[OF assms None Inr Cons[unfolded c]] Let_def
        by (simp add: new_events_def split: sum.splits option.splits)
    qed
  qed
qed

lemma construct_reply_status:
  "http_post E k HEADERS_TTL (construct_for_county iri) = Inr resp \<Longrightarrow>
     400 \<le> status_code resp \<Longrightarrow> status_code resp < 600 \<Longrightarrow>
     construct_reply E k iri = Inl (HTTPError (status_code resp) (resp_text resp))"
  by (simp add: construct_reply_def raise_for_status_def)

lemma construct_reply_other_status:
  "http_post E k HEADERS_TTL (construct_for_county iri) = Inr resp \<Longrightarrow>
     \<not> (400 \<le> status_code resp \<and> status_code resp < 600) \<Longrightarrow>
     construct_reply E k iri = Inr (resp_text resp)"
  by (simp add: construct_reply_def raise_for_status_def)

lemma construct_reply_transport:
  "http_post E k HEADERS_TTL (construct_for_county iri) = Inl e \<Longrightarrow> construct_reply E k iri = Inl e"
  by (simp add: construct_reply_def)

text \<open>
  Claim C9, as amended.  In single-entity mode nothing is caught.  With the directory made,
  the counties fetched and the first county that has the code at hand: an exception of the
  extraction call, be it raised by the transport or by \<^verbatim>\<open>raise_for_status\<close> for a response
  whose status is from 400 to 599, ends the script as an uncaught exception, with no file
  written; so does an exception of the file write.  A response with any other status, also
  one outside 200 to 299, is no failure: when the write does not raise, its body is written
  to the county's file and the run ends normally.  And no run in single-entity mode ever
  pauses.
\<close>

theorem single_mode_errors_uncaught:
  assumes "length (argv E) = 2" "mkdir_error E = None" "counties_reply E (posts w) = Inr cs"
    and "cs = before @ (iri, label) # after"
    and "\<forall>c\<in>set before. extract_fips_from_iri (fst c) \<noteq> strip (argv E ! 1)"
    and "extract_fips_from_iri iri = strip (argv E ! 1)"
  shows
  "(\<forall>e. construct_reply E (Suc (posts w)) iri = Inl e \<longrightarrow>
       fst (script E w) = Uncaught e \<and> files (snd (script E w)) = files w)
   \<and> (\<forall>e. http_post E (Suc (posts w)) HEADERS_TTL (construct_for_county iri) = Inl e \<longrightarrow>
       fst (script E w) = Uncaught e \<and> files (snd (script E w)) = files w)
   \<and> (\<forall>resp. http_post E (Suc (posts w)) HEADERS_TTL (construct_for_county iri) = Inr resp
          \<and> 400 \<le> status_code resp \<and> status_code resp < 600 \<longrightarrow>
       fst (script E w) = Uncaught (HTTPError (status_code resp) (resp_text resp))
       \<and> files (snd (script E w)) = files w)
   \<and> (\<forall>resp. http_post E (Suc (posts w)) HEADERS_TTL (construct_for_county iri) = Inr resp
          \<and> \<not> (400 \<le> status_code resp \<and> status_code resp < 600)
          \<and> write_error E (OUT_DIR E @ [out_name label (strip (argv E ! 1))]) = None \<longrightarrow>
       fst (script E w) = Finished
       \<and> files (snd (script E w)) (OUT_DIR E @ [out_name label (strip (argv E ! 1))])
           = Some (resp_text resp))
   \<and> (\<forall>t e. construct_reply E (Suc (posts w)) iri = Inr t
          \<and> write_error E (OUT_DIR E @ [out_name label (strip (argv E ! 1))]) = Some e \<longrightarrow>
       fst (script E w) = Uncaught e \<and> files (snd (script E w)) = files w)
   \<and> filter is_pause (new_events w (snd (script E w))) = []"
proof -
  have mt: "matching (strip (argv E ! 1)) cs = (iri, label) # matching (strip (argv E ! 1)) after"
    unfolding assms(4) by (rule matching_split[OF assms(5,6)])
  note s = script_single_match[OF assms(1-3) mt]
  have a: "\<forall>e. construct_reply E (Suc (posts w)) iri = Inl e \<longrightarrow>
       fst (script E w) = Uncaught e \<and> files (snd (script E w)) = files w"
    unfolding s Let_def by simp
  have b: "\<forall>e. http_post E (Suc (posts w)) HEADERS_TTL (construct_for_county iri) = Inl e \<longrightarrow>
       fst (script E w) = Uncaught e \<and> files (snd (script E w)) = files w"
    using a construct_reply_transport by blast
  have c: "\<forall>resp. http_post E (Suc (posts w)) HEADERS_TTL (construct_for_county iri) = Inr resp
          \<and> 400 \<le> status_code resp \<and> status_code resp < 600 \<longrightarrow>
       fst (script E w) = Uncaught (HTTPError (status_code resp) (resp_text resp))
       \<and> files (snd (script E w)) = files w"
    using a construct_reply_status by blast
  have ok: "\<forall>t. construct_reply E (Suc (posts w)) iri = Inr t
          \<and> write_error E (OUT_DIR E @ [out_name label (strip (argv E ! 1))]) = None \<longrightarrow>
       fst (script E w) = Finished
       \<and> files (snd (script E w)) (OUT_DIR E @ [out_name label (strip (argv E ! 1))]) = Some t"
    unfolding s Let_def by simp
  have d: "\<forall>resp. http_post E (Suc (posts w)) HEADERS_TTL (construct_for_county iri) = Inr resp
          \<and> \<not> (400 \<le> status_code resp \<and> status_code resp < 600)
          \<and> write_error E (OUT_DIR E @ [out_name label (strip (argv E ! 1))]) = None \<longrightarrow>
       fst (script E w) = Finished
       \<and> files (snd (script E w)) (OUT_DIR E @ [out_name label (strip (argv E ! 1))])
           = Some (resp_text resp)"
    using ok construct_reply_other_status by blast
  have e: "\<forall>t e. construct_reply E (Suc (posts w)) iri = Inr t
          \<and> write_error E (OUT_DIR E @ [out_name label (strip (argv E ! 1))]) = Some e \<longrightarrow>
       fst (script E w) = Uncaught e \<and> files (snd (script E w)) = files w"
    unfolding s Let_def by simp
  from a b c d e script_single_no_pause[OF assms(1)] show ?thesis by blast
qed

text \<open>
  An instance: the code 23003 is the code of the second county and the endpoint answers 503.
\<close>

theorem single_mode_errors_uncaught_witness:
  "fst (script (env_single ''23003'' (\<lambda>k. Inr (ttl_response 503 ''Service Unavailable'')) (\<lambda>p. None)) empty_world)
     = Uncaught (HTTPError 503 ''Service Unavailable'')
   \<and> files (snd (script (env_single ''23003'' (\<lambda>k. Inr (ttl_response 503 ''Service Unavailable'')) (\<lambda>p. None)) empty_world))
     = Map.empty
   \<and> filter is_pause (new_events empty_world
        (snd (script (env_single ''23003'' (\<lambda>k. Inr (ttl_response 503 ''Service Unavailable'')) (\<lambda>p. None)) empty_world))) = []"
proof -
  let ?E = "env_single ''23003'' (\<lambda>k. Inr (ttl_response 503 ''Service Unavailable'')) (\<lambda>p. None)"
  let ?before = "[(iri_23001, ''Androscoggin County, Maine'')]"
  have a: "length (argv ?E) = 2" and m: "mkdir_error ?E = None"
    by (simp_all add: env_single_def)
  have r: "counties_reply ?E (posts empty_world) =
      Inr [(iri_23001, ''Androscoggin County, Maine''), (iri_23003, ''Aroostook County, Maine'')]"
    by (simp add: env_single_def example_counties_reply collect_two_counties)
  have g: "strip (argv ?E ! 1) = ''23003''"
    by (simp add: env_single_def strip_23003)
  have sp: "[(iri_23001, ''Androscoggin County, Maine''), (iri_23003, ''Aroostook County, Maine'')]
      = ?before @ (iri_23003, ''Aroostook County, Maine'') # []"
    by simp
  have first: "\<forall>c\<in>set ?before. extract_fips_from_iri (fst c) \<noteq> strip (argv ?E ! 1)"
    unfolding g by (simp add: fips_23001)
  have f: "extract_fips_from_iri iri_23003 = strip (argv ?E ! 1)"
    unfolding g by (rule fips_23003)
  have c: "construct_reply ?E (Suc (posts empty_world)) iri_23003 = Inl (HTTPError 503 ''Service Unavailable'')"
    by (simp add: env_single_def example_construct_reply ttl_response_status)
  from single_mode_errors_uncaught[OF a m r sp first f] c show ?thesis by simp
qed

text \<open>
  The claim as first stated counts every response outside 200 to 299 as a failure that
  ends the run.  Here the code 23003 is matched and the endpoint answers 304 with an empty
  body: \<^verbatim>\<open>raise_for_status\<close> does not raise, the run ends normally, and the empty body is
  the content of the county's file.
\<close>

theorem single_mode_accepts_status_304:
  "\<not> (200 \<le> status_code (ttl_response 304 []) \<and> status_code (ttl_response 304 []) < 300)
   \<and> fst (script (env_single ''23003'' (\<lambda>k. Inr (ttl_response 304 [])) (\<lambda>p. None)) empty_world) = Finished
   \<and> files (snd (script (env_single ''23003'' (\<lambda>k. Inr (ttl_response 304 [])) (\<lambda>p. None)) empty_world))
       [''home'', ''user'', ''Desktop'', ''kwg_maine_cropland_by_county'', ''cropland_aroostook_county_maine_23003.ttl'']
       = Some []"
proof -
  let ?E = "env_single ''23003'' (\<lambda>k. Inr (ttl_response 304 [])) (\<lambda>p. None)"
  let ?cs = "[(iri_23001, ''Androscoggin County, Maine''), (iri_23003, ''Aroostook County, Maine'')]"
  have a: "length (argv ?E) = 2" and m: "mkdir_error ?E = None"
    by (simp_all add: env_single_def)
  have r: "counties_reply ?E (posts empty_world) = Inr ?cs"
    by (simp add: env_single_def example_counties_reply collect_two_counties)
  have g: "matching (strip (argv ?E ! 1)) ?cs = (iri_23003, ''Aroostook County, Maine'') # []"
    by (simp add: env_single_def strip_23003 single_example_matching)
  have c: "construct_reply ?E k iri = Inr []" for k iri
    by (simp add: env_single_def example_construct_reply ttl_response_status)
  have w: "write_error ?E q = None" for q
    by (simp add: env_single_def)
  have o: "OUT_DIR ?E = [''home'', ''user'', ''Desktop'', ''kwg_maine_cropland_by_county'']"
    by (simp add: env_single_def OUT_DIR_def)
  have st: "strip (argv ?E ! 1) = ''23003''"
    by (simp add: env_single_def strip_23003)
  have run: "fst (script ?E empty_world) = Finished
     \<and> files (snd (script ?E empty_world))
       [''home'', ''user'', ''Desktop'', ''kwg_maine_cropland_by_county'', ''cropland_aroostook_county_maine_23003.ttl'']
       = Some []"
    unfolding script_single_match[OF a m r g] Let_def c w o st
    by (simp add: name_aroostook)
  have "status_code (ttl_response 304 []) = 304" by (simp add: ttl_response_def)
  with run show ?thesis by simp
qed

section \<open>The output directory\<close>

lemma OUT_DIR_in_ancestors: "OUT_DIR E \<in> set (ancestors (OUT_DIR E))"
proof -
  have "length (OUT_DIR E) \<in> {1 ..< Suc (length (OUT_DIR E))}" by (simp add: OUT_DIR_def)
  then have "take (length (OUT_DIR E)) (OUT_DIR E) \<in> set (ancestors (OUT_DIR E))"
    unfolding ancestors_def by (simp del: take_all)
  then show ?thesis by simp
qed

lemma script_sweep_world:
  assumes "length (argv E) \<noteq> 2" "mkdir_error E = None" "counties_reply E (posts w) = Inr cs"
  shows "dirs (snd (script E w)) = dirs w \<union> set (ancestors (OUT_DIR E))"
    and "files (snd (script E w)) = files (snd (export_loop E (length cs) 1 cs (sweep_start E (length cs) w)))"
    and "\<exists>evs. trace (snd (script E w)) = trace w @ MkDir (OUT_DIR E) # evs"
proof -
  let ?w0 = "sweep_start E (length cs) w"
  let ?l = "export_loop E (length cs) 1 cs ?w0"
  have s: "snd (script E w) = snd ?l \<or> snd (script E w) = emit (Printed Done) (snd ?l)"
    unfolding script_sweep[OF assms] by (cases ?l; cases "fst ?l") auto
  from s show "dirs (snd (script E w)) = dirs w \<union> set (ancestors (OUT_DIR E))" by auto
  from s show "files (snd (script E w)) = files (snd ?l)" by auto
  from export_loop_extends[of E "length cs" 1 cs ?w0] obtain evs where
    "trace (snd ?l) = trace ?w0 @ evs" by blast
  with s show "\<exists>evs. trace (snd (script E w)) = trace w @ MkDir (OUT_DIR E) # evs" by auto
qed

lemma script_trace_starts:
  "\<exists>evs. trace (snd (script E w)) = trace w @ MkDir (OUT_DIR E) # evs"
proof (cases "mkdir_error E")
  case (Some e)
  then show ?thesis by (simp add: script_mkdir_fails)
next
  case None
  show ?thesis
  proof (cases "counties_reply E (posts w)")
    case (Inl e)
    then show ?thesis
      by (cases "length (argv E) = 2")
         (simp_all add: script_single_enum_fails[OF _ None] script_sweep_enum_fails[OF _ None])
  next
    case (Inr cs)
    show ?thesis
    proof (cases "length (argv E) = 2")
      case False
      from script_sweep_world(3)[OF False None Inr] show ?thesis .
    next
      case True
      show ?thesis
      proof (cases "matching (strip (argv E ! 1)) cs")
        case Nil
        then show ?thesis by (simp add: script_single_no_match[OF True None Inr])
      next
        case (Cons c rest)
        obtain iri label where c: "c = (iri, label)" by (cases c)
        show ?thesis
          unfolding script_single_match[OF True None Inr Cons[unfolded c]] Let_def
          by (simp split: sum.splits option.splits)
      qed
    qed
  qed
qed

lemma script_dirs:
  "dirs (snd (script E w)) = (if mkdir_error E = None then dirs w \<union> set (ancestors (OUT_DIR E)) else dirs w)"
proof (cases "mkdir_error E")
  case (Some e)
  then show ?thesis by (simp add: script_mkdir_fails)
next
  case None
  show ?thesis
  proof (cases "counties_reply E (posts w)")
    case (Inl e)
    then show ?thesis
      by (cases "length (argv E) = 2")
         (simp_all add: None script_single_enum_fails[OF _ None] script_sweep_enum_fails[OF _ None])
  next
    case (Inr cs)
    show ?thesis
    proof (cases "length (argv E) = 2")
      case False
      from script_sweep_world(1)[OF False None Inr] None show ?thesis by simp
    next
      case True
      show ?thesis
      proof (cases "matching (strip (argv E ! 1)) cs")
        case Nil
        then show ?thesis by (simp add: None script_single_no_match[OF True None Inr])
      next
        case (Cons c rest)
        obtain iri label where c: "c = (iri, label)" by (cases c)
        show ?thesis
          unfolding script_single_match[OF True None Inr Cons[unfolded c]] Let_def
          by (simp add: None split: sum.splits option.splits)
      qed
    qed
  qed
qed

lemma script_files:
  assumes "files (snd (script E w)) p \<noteq> files w p"
  shows "\<exists>iri label. p = OUT_DIR E @ [out_name label (extract_fips_from_iri iri)]"
proof (cases "mkdir_error E")
  case (Some e)
  with assms show ?thesis by (simp add: script_mkdir_fails)
next
  case None
  show ?thesis
  proof (cases "counties_reply E (posts w)")
    case (Inl e)
    with assms show ?thesis
      by (cases "length (argv E) = 2")
         (simp_all add: script_single_enum_fails[OF _ None] script_sweep_enum_fails[OF _ None])
  next
    case (Inr cs)
    show ?thesis
    proof (cases "length (argv E) = 2")
      case False
      let ?w0 = "sweep_start E (length cs) w"
      from assms have "files (snd (export_loop E (length cs) 1 cs ?w0)) p \<noteq> files ?w0 p"
        by (simp add: script_sweep_world(2)[OF False None Inr])
      from export_loop_files[OF this] show ?thesis by (auto simp: out_path_of_def)
    next
      case True
      show ?thesis
      proof (cases "matching (strip (argv E ! 1)) cs")
        case Nil
        with assms show ?thesis by (simp add: script_single_no_match[OF True None Inr])
      next
        case (Cons c rest)
        obtain iri label where c: "c = (iri, label)" by (cases c)
        from matching_ConsD[OF Cons[unfolded c]] have f: "strip (argv E ! 1) = extract_fips_from_iri iri"
          by simp
        from assms show ?thesis
          unfolding script_single_match[OF True None Inr Cons[unfolded c]] Let_def f
          by (auto split: sum.splits option.splits if_splits)
      qed
    qed
  qed
qed

text \<open>
  Claim C10.  The first thing any run does is to make the output directory, with its
  parents; no query is sent before.  Unless that call itself raises, which ends the run
  there, the directory exists when the run is over, whatever happened in between: also
  when no county matched the code or every county failed.  Besides the directory and its
  parents the run changes the file system only at output files, \<^verbatim>\<open>OUT_DIR\<close>/\<^verbatim>\<open>cropland_\<close>
  slug \<^verbatim>\<open>_\<close> code \<^verbatim>\<open>.ttl\<close>.
\<close>

theorem output_directory_created_first:
  "(\<exists>evs. trace (snd (script E w)) = trace w @ MkDir (OUT_DIR E) # evs)
   \<and> (mkdir_error E = None \<longrightarrow> OUT_DIR E \<in> dirs (snd (script E w)))
   \<and> dirs (snd (script E w)) \<subseteq> dirs w \<union> set (ancestors (OUT_DIR E))
   \<and> (\<forall>p. files (snd (script E w)) p \<noteq> files w p \<longrightarrow>
         (\<exists>iri label. p = OUT_DIR E @ [out_name label (extract_fips_from_iri iri)]))"
  using script_trace_starts[of E w] script_files[of E w] OUT_DIR_in_ancestors[of E]
  by (auto simp: script_dirs)

text \<open>
  Two instances that write no file: a single-entity run whose code matches no county, and a
  sweep in which every county fails.  The directory exists after both.
\<close>

theorem output_directory_created_first_witness:
  "[''home'', ''user'', ''Desktop'', ''kwg_maine_cropland_by_county'']
      \<in> dirs (snd (script (env_single '' 99999 '' (\<lambda>k. Inr (ttl_response 200 turtle_doc)) (\<lambda>p. None)) empty_world))
   \<and> files (snd (script (env_single '' 99999 '' (\<lambda>k. Inr (ttl_response 200 turtle_doc)) (\<lambda>p. None)) empty_world)) = Map.empty
   \<and> [''home'', ''user'', ''Desktop'', ''kwg_maine_cropland_by_county'']
      \<in> dirs (snd (script env_all_500 empty_world))"
proof -
  let ?E = "env_single '' 99999 '' (\<lambda>k. Inr (ttl_response 200 turtle_doc)) (\<lambda>p. None)"
  have 1: "mkdir_error ?E = None" "OUT_DIR ?E = [''home'', ''user'', ''Desktop'', ''kwg_maine_cropland_by_county'']"
    by (simp_all add: env_single_def OUT_DIR_def)
  have 2: "mkdir_error env_all_500 = None" "OUT_DIR env_all_500 = [''home'', ''user'', ''Desktop'', ''kwg_maine_cropland_by_county'']"
    by (simp_all add: env_all_500_def OUT_DIR_def)
  have a: "length (argv ?E) = 2" by (simp add: env_single_def)
  have r: "counties_reply ?E (posts empty_world) =
      Inr [(iri_23001, ''Androscoggin County, Maine''), (iri_23003, ''Aroostook County, Maine'')]"
    by (simp add: env_single_def example_counties_reply collect_two_counties)
  have g: "matching (strip (argv ?E ! 1)) [(iri_23001, ''Androscoggin County, Maine''), (iri_23003, ''Aroostook County, Maine'')] = []"
    by (simp add: env_single_def strip_99999 single_example_no_match)
  have f: "files (snd (script ?E empty_world)) = Map.empty"
    by (simp add: script_single_no_match[OF a 1(1) r g])
  from output_directory_created_first[of ?E empty_world] output_directory_created_first[of env_all_500 empty_world]
  show ?thesis using 1 2 f by simp
qed

section \<open>The order of the enumeration\<close>

lemma collect_counties_eq:
  "collect_counties bs = Inr cs \<longleftrightarrow> map binding_pair bs = map Inr cs"
proof (induction bs arbitrary: cs)
  case Nil
  then show ?case by auto
next
  case (Cons b bs)
  show ?case
  proof (cases "binding_pair b")
    case (Inl e)
    then show ?thesis by (cases cs) auto
  next
    case (Inr p)
    show ?thesis
    proof (cases "collect_counties bs")
      case (Inl e)
      with Cons.IH have "\<And>ps. map binding_pair bs \<noteq> map Inr ps" by simp
      with Inl Inr show ?thesis by (cases cs) auto
    next
      case r: (Inr ps)
      with Cons.IH[of ps] have m: "map binding_pair bs = map Inr ps" by simp
      have "map Inr ps = map Inr (tl cs) \<longleftrightarrow> ps = tl cs"
        by (simp add: inj_map_eq_map[OF inj_Inr])
      with Inr r m show ?thesis by (cases cs) (auto simp: inj_map_eq_map[OF inj_Inr])
    qed
  qed
qed

lemma get_maine_counties_fst:
  "fst (get_maine_counties E w) =
     (case fst (run_select E select_query w) of
        Inl e \<Rightarrow> Inl e
      | Inr data \<Rightarrow>
          (case getitem data ''results'' of
             Inl e \<Rightarrow> Inl e
           | Inr results \<Rightarrow>
               (case getitem results ''bindings'' of
                  Inl e \<Rightarrow> Inl e
                | Inr bindings \<Rightarrow> collect_counties bindings)))"
  by (simp add: get_maine_counties_def split: prod.splits sum.splits)

lemma example_run_select:
  "fst (run_select (example_env args bs ttl wr) select_query w) = Inr [''results'' \<mapsto> [''bindings'' \<mapsto> bs]]"
  by (simp add: run_select_def requests_post_def example_env_def select_response_def raise_for_status_def)

text \<open>
  Claim C3, as amended.  The enumeration function returns one pair (identifier, label) for
  each binding of the reply, in the order of the reply: the pair at a position is the one
  read from the binding at that position.  It does not sort and does not remove duplicates;
  both are asked of the endpoint, by \<^verbatim>\<open>ORDER BY ?label\<close> and \<^verbatim>\<open>SELECT DISTINCT\<close> in the
  query text, so the list is sorted and free of duplicates when the reply is.
\<close>

theorem get_maine_counties_keeps_reply_order:
  assumes "fst (run_select E select_query w) = Inr data"
    "data ''results'' = Some results" "results ''bindings'' = Some bs"
    "map binding_pair bs = map Inr cs"
  shows "fst (get_maine_counties E w) = Inr cs
     \<and> length cs = length bs
     \<and> (\<forall>j<length bs. binding_pair (bs ! j) = Inr (cs ! j))"
proof -
  from assms(4) have c: "collect_counties bs = Inr cs" by (simp add: collect_counties_eq)
  have l: "length cs = length bs" using assms(4) by (metis length_map)
  have "\<forall>j<length bs. binding_pair (bs ! j) = Inr (cs ! j)"
  proof (intro allI impI)
    fix j assume j: "j < length bs"
    then have "binding_pair (bs ! j) = map binding_pair bs ! j" by simp
    also have "\<dots> = map Inr cs ! j" by (simp only: assms(4))
    also have "\<dots> = Inr (cs ! j)" using j l by simp
    finally show "binding_pair (bs ! j) = Inr (cs ! j)" .
  qed
  with c l assms(1-3) show ?thesis by (simp add: get_maine_counties_fst getitem_def)
qed

text \<open>
  An instance: the two counties, as the endpoint returns them in label order.
\<close>

theorem get_maine_counties_keeps_reply_order_witness:
  "fst (get_maine_counties env_all_500 empty_world) =
     Inr [(iri_23001, ''Androscoggin County, Maine''), (iri_23003, ''Aroostook County, Maine'')]"
proof -
  have p: "map binding_pair two_counties =
      map Inr [(iri_23001, ''Androscoggin County, Maine''), (iri_23003, ''Aroostook County, Maine'')]"
    using collect_two_counties by (simp add: collect_counties_eq)
  have r: "fst (run_select env_all_500 select_query empty_world) = Inr [''results'' \<mapsto> [''bindings'' \<mapsto> two_counties]]"
    by (simp add: env_all_500_def example_run_select)
  from get_maine_counties_keeps_reply_order[OF r _ _ p, of "[''bindings'' \<mapsto> two_counties]"]
  show ?thesis by simp
qed

text \<open>
  The claim as first stated, sorted and without duplicates for any bindings, fails for a
  reply whose bindings are out of order and repeat a pair: the function returns them as
  they came.
\<close>

theorem enumeration_not_sorted_nor_distinct:
  "fst (get_maine_counties
          (example_env [''prog''] unsorted_bindings (\<lambda>k. Inr (ttl_response 200 turtle_doc)) (\<lambda>p. None))
          empty_world)
     = Inr [(''urn:b'', ''Beta''), (''urn:a'', ''Alpha''), (''urn:a'', ''Alpha'')]
   \<and> \<not> sorted (map snd [(''urn:b'', ''Beta''), (''urn:a'', ''Alpha''), (''urn:a'', ''Alpha'')])
   \<and> \<not> distinct [(''urn:b'', ''Beta''), (''urn:a'', ''Alpha''), (''urn:a'', ''Alpha'')]"
proof -
  have "counties_reply (example_env [''prog''] unsorted_bindings (\<lambda>k. Inr (ttl_response 200 turtle_doc)) (\<lambda>p. None)) 0
      = Inr [(''urn:b'', ''Beta''), (''urn:a'', ''Alpha''), (''urn:a'', ''Alpha'')]"
    by (simp add: example_counties_reply unsorted_bindings_def county_binding_def binding_pair_def getitem_def)
  moreover have "\<not> sorted (map snd [(''urn:b'', ''Beta''), (''urn:a'', ''Alpha''), (''urn:a'', ''Alpha'')])"
    by simp
  ultimately show ?thesis by (simp add: get_maine_counties_eq)
qed

section \<open>The guard against error pages\<close>

lemma script_sweep_never_saves_html:
  assumes "length (argv E) \<noteq> 2" "Wrote p t \<in> set (new_events w (snd (script E w)))"
  shows "\<not> looks_like_html t"
proof (cases "mkdir_error E")
  case (Some e)
  with assms show ?thesis by (simp add: script_mkdir_fails new_events_def)
next
  case None
  show ?thesis
  proof (cases "counties_reply E (posts w)")
    case (Inl e)
    with assms show ?thesis by (simp add: script_sweep_enum_fails[OF assms(1) None] new_events_def)
  next
    case (Inr cs)
    let ?w0 = "sweep_start E (length cs) w"
    let ?l = "export_loop E (length cs) 1 cs ?w0"
    from export_loop_trace[of E "length cs" 1 cs ?w0] obtain evs where
      t: "trace (snd ?l) = trace ?w0 @ evs"
      and wr: "\<forall>p t. Wrote p t \<in> set evs \<longrightarrow> (\<exists>c\<in>set cs. p = out_path_of E c) \<and> \<not> looks_like_html t"
      by blast
    have "trace (snd (script E w)) = trace (snd ?l) \<or> trace (snd (script E w)) = trace (snd ?l) @ [Printed Done]"
      unfolding script_sweep[OF assms(1) None Inr] by (cases ?l; cases "fst ?l") auto
    with assms(2) t have "Wrote p t \<in> set evs" by (auto simp: new_events_def)
    with wr show ?thesis by blast
  qed
qed

text \<open>
  Claim C1 holds for the full sweep (the lemma above) and fails in single-entity mode,
  which writes whatever the extraction returned.  Here the endpoint answers the code 23003
  with status 200 and an error page: the run ends normally and the page is the content of
  the county's file.  The same replies in a full sweep leave the file system untouched.
\<close>

theorem single_mode_saves_html:
  "looks_like_html html_page
   \<and> fst (script (env_single ''23003'' (\<lambda>k. Inr (ttl_response 200 html_page)) (\<lambda>p. None)) empty_world) = Finished
   \<and> files (snd (script (env_single ''23003'' (\<lambda>k. Inr (ttl_response 200 html_page)) (\<lambda>p. None)) empty_world))
       [''home'', ''user'', ''Desktop'', ''kwg_maine_cropland_by_county'', ''cropland_aroostook_county_maine_23003.ttl'']
       = Some html_page
   \<and> files (snd (script (example_env [''prog''] two_counties (\<lambda>k. Inr (ttl_response 200 html_page)) (\<lambda>p. None)) empty_world))
       = Map.empty"
proof -
  let ?E = "env_single ''23003'' (\<lambda>k. Inr (ttl_response 200 html_page)) (\<lambda>p. None)"
  let ?S = "example_env [''prog''] two_counties (\<lambda>k. Inr (ttl_response 200 html_page)) (\<lambda>p. None)"
  let ?cs = "[(iri_23001, ''Androscoggin County, Maine''), (iri_23003, ''Aroostook County, Maine'')]"
  have a: "length (argv ?E) = 2" and m: "mkdir_error ?E = None"
    by (simp_all add: env_single_def)
  have r: "counties_reply ?E (posts empty_world) = Inr ?cs"
    by (simp add: env_single_def example_counties_reply collect_two_counties)
  have g: "matching (strip (argv ?E ! 1)) ?cs = (iri_23003, ''Aroostook County, Maine'') # []"
    by (simp add: env_single_def strip_23003 single_example_matching)
  have c: "construct_reply ?E k iri = Inr html_page" for k iri
    by (simp add: env_single_def example_construct_reply ttl_response_status)
  have w: "write_error ?E q = None" for q
    by (simp add: env_single_def)
  have o: "OUT_DIR ?E = [''home'', ''user'', ''Desktop'', ''kwg_maine_cropland_by_county'']"
    by (simp add: env_single_def OUT_DIR_def)
  have st: "strip (argv ?E ! 1) = ''23003''"
    by (simp add: env_single_def strip_23003)
  have single: "fst (script ?E empty_world) = Finished
     \<and> files (snd (script ?E empty_world))
       [''home'', ''user'', ''Desktop'', ''kwg_maine_cropland_by_county'', ''cropland_aroostook_county_maine_23003.ttl'']
       = Some html_page"
    unfolding script_single_match[OF a m r g] Let_def c w o st
    by (simp add: name_aroostook)
  have a': "length (argv ?S) \<noteq> 2" and m': "mkdir_error ?S = None" by simp_all
  have r': "counties_reply ?S (posts empty_world) = Inr ?cs"
    by (simp add: example_counties_reply collect_two_counties)
  have c': "construct_reply ?S k iri = Inr html_page" for k iri
    by (simp add: example_construct_reply ttl_response_status)
  have sweep: "files (snd (script ?S empty_world)) = Map.empty"
    unfolding script_sweep[OF a' m' r']
    by (simp add: export_loop_Cons export_county_html[OF c' html_page_looks_like_html])
  from html_page_looks_like_html single sweep show ?thesis by blast
qed

end
